theory Spec2Isabelle
  imports Complex_Main "HOL-Library.Log_Nat"
begin

section \<open>JavaScript values\<close>

text \<open>
  A JavaScript number is an IEEE 754 binary64 double. A finite double is modelled by the
  rational it denotes, and every arithmetic result is rounded to the nearest double,
  ties to the even significand, with the gradual underflow and the overflow to
  \<open>Infinity\<close> of the format; only the sign of zero is not kept. \<open>JSON.parse\<close> (behind
  \<open>express.json()\<close>) rounds a decimal literal the same way, so \<open>round_double (1 / 10)\<close> is
  the number a body gives for \<open>0.1\<close>, and a literal such as \<open>1e999\<close> gives \<open>Infinity\<close>.
\<close>

datatype jsnum = NaN | NInf | Fin rat | PInf

definition pow2 :: "int \<Rightarrow> rat" where
  "pow2 k = (if 0 \<le> k then 2 ^ nat k else 1 / 2 ^ nat (- k))"

text \<open>The binary exponent of a positive rational: \<open>2 ^ ilog2 x \<le> x < 2 ^ (ilog2 x + 1)\<close>.\<close>

definition ilog2 :: "rat \<Rightarrow> int" where
  "ilog2 x =
     (if 1 \<le> x then bitlen \<lfloor>x\<rfloor> - 1
      else (let k = bitlen \<lfloor>1 / x\<rfloor> - 1 in if pow2 k = 1 / x then - k else - k - 1))"

definition round_half_even :: "rat \<Rightarrow> int" where
  "round_half_even y =
     (let f = \<lfloor>y\<rfloor>; d = y - of_int f
      in if d < 1 / 2 then f else if 1 / 2 < d then f + 1 else if even f then f else f + 1)"

text \<open>
  A positive rational rounded to 53 significant bits, the unit in the last place being
  at least \<open>2 ^ - 1074\<close>.
\<close>

definition round_magnitude :: "rat \<Rightarrow> rat" where
  "round_magnitude x =
     (let e = max (ilog2 x - 52) (- 1074)
      in of_int (round_half_even (x / pow2 e)) * pow2 e)"

definition round_double :: "rat \<Rightarrow> jsnum" where
  "round_double x =
     (if x = 0 then Fin 0
      else (let r = round_magnitude \<bar>x\<bar>
            in if pow2 1024 \<le> r then (if 0 < x then PInf else NInf)
               else Fin (if 0 < x then r else - r)))"

text \<open>What \<open>req.body.<field>\<close> can hold; arrays and objects are not looked into.\<close>

datatype jsval = JUndefined | JNull | JBoolean bool | JNumber jsnum | JString string | JObject

fun typeof :: "jsval \<Rightarrow> string" where
  "typeof JUndefined = ''undefined''"
| "typeof JNull = ''object''"
| "typeof (JBoolean b) = ''boolean''"
| "typeof (JNumber n) = ''number''"
| "typeof (JString s) = ''string''"
| "typeof JObject = ''object''"

fun js_add :: "jsnum \<Rightarrow> jsnum \<Rightarrow> jsnum" where
  "js_add NaN y = NaN"
| "js_add x NaN = NaN"
| "js_add (Fin a) (Fin b) = round_double (a + b)"
| "js_add (Fin a) PInf = PInf"
| "js_add (Fin a) NInf = NInf"
| "js_add PInf (Fin b) = PInf"
| "js_add PInf PInf = PInf"
| "js_add PInf NInf = NaN"
| "js_add NInf (Fin b) = NInf"
| "js_add NInf NInf = NInf"
| "js_add NInf PInf = NaN"

fun js_mul :: "jsnum \<Rightarrow> jsnum \<Rightarrow> jsnum" where
  "js_mul NaN y = NaN"
| "js_mul x NaN = NaN"
| "js_mul (Fin a) (Fin b) = round_double (a * b)"
| "js_mul (Fin a) PInf = (if a = 0 then NaN else if 0 < a then PInf else NInf)"
| "js_mul (Fin a) NInf = (if a = 0 then NaN else if 0 < a then NInf else PInf)"
| "js_mul PInf (Fin b) = (if b = 0 then NaN else if 0 < b then PInf else NInf)"
| "js_mul NInf (Fin b) = (if b = 0 then NaN else if 0 < b then NInf else PInf)"
| "js_mul PInf PInf = PInf"
| "js_mul PInf NInf = NInf"
| "js_mul NInf PInf = NInf"
| "js_mul NInf NInf = PInf"

text \<open>\<open>a - b\<close> on doubles is \<open>a + (-b)\<close>.\<close>

fun js_neg :: "jsnum \<Rightarrow> jsnum" where
  "js_neg NaN = NaN"
| "js_neg NInf = PInf"
| "js_neg (Fin a) = Fin (- a)"
| "js_neg PInf = NInf"

definition js_sub :: "jsnum \<Rightarrow> jsnum \<Rightarrow> jsnum" where
  "js_sub x y = js_add x (js_neg y)"

fun js_lt :: "jsnum \<Rightarrow> jsnum \<Rightarrow> bool" where
  "js_lt NaN y = False"
| "js_lt x NaN = False"
| "js_lt (Fin a) (Fin b) = (a < b)"
| "js_lt (Fin a) PInf = True"
| "js_lt NInf (Fin b) = True"
| "js_lt NInf PInf = True"
| "js_lt x y = False"

text \<open>\<open>===\<close> on numbers: \<open>NaN\<close> equals nothing, itself included.\<close>

definition js_eq :: "jsnum \<Rightarrow> jsnum \<Rightarrow> bool" where
  "js_eq x y = (x \<noteq> NaN \<and> x = y)"

definition js_gt :: "jsnum \<Rightarrow> jsnum \<Rightarrow> bool" where
  "js_gt x y = js_lt y x"

definition js_le :: "jsnum \<Rightarrow> jsnum \<Rightarrow> bool" where
  "js_le x y = (js_lt x y \<or> js_eq x y)"

definition js_ge :: "jsnum \<Rightarrow> jsnum \<Rightarrow> bool" where
  "js_ge x y = js_le y x"

text \<open>
  \<open>v || 0\<close> where \<open>v\<close> is \<open>res[0]?.field\<close>: \<open>undefined\<close> (no first element), \<open>0\<close> and
  \<open>NaN\<close> are falsy and give \<open>0\<close>; every other number is returned.
\<close>

definition or_zero :: "jsnum option \<Rightarrow> jsnum" where
  "or_zero v = (case v of None \<Rightarrow> Fin 0
                | Some n \<Rightarrow> if n = Fin 0 \<or> n = NaN then Fin 0 else n)"

section \<open>The document store\<close>

text \<open>
  The two collections, in insertion order. The store is taken to be connected: a call
  to it fails only by a cast or a validation of the schema.
\<close>

type_synonym objectid = string

text \<open>\<open>models/Transaction.js\<close>: \<open>type\<close>, \<open>amount\<close>, \<open>date\<close> (milliseconds), and the \<open>_id\<close>.\<close>

record transaction =
  tx_id :: objectid
  type :: string
  amount :: jsnum
  date :: nat

text \<open>\<open>models/User.js\<close>: \<open>name\<close>; \<open>None\<close> is a stored \<open>null\<close>.\<close>

record user =
  user_id :: objectid
  name :: "string option"

record store =
  users :: "user list"
  transactions :: "transaction list"

definition empty_store :: store where
  "empty_store = \<lparr>users = [], transactions = []\<rparr>"

datatype store_error = ValidationError

text \<open>
  Document validation on \<open>save()\<close>, from the schema: \<open>type\<close> is required and one of the
  \<open>enum\<close> strings; \<open>amount\<close> is a required \<open>Number\<close>, and the \<open>Number\<close> cast refuses \<open>NaN\<close>.
\<close>

definition validate_transaction :: "transaction \<Rightarrow> bool" where
  "validate_transaction t =
     ((type t = ''deposit'' \<or> type t = ''withdrawal'') \<and> amount t \<noteq> NaN)"

definition Transaction_save :: "transaction \<Rightarrow> store \<Rightarrow> store_error + store" where
  "Transaction_save t s =
     (if validate_transaction t then Inr (s\<lparr>transactions := transactions s @ [t]\<rparr>)
      else Inl ValidationError)"

text \<open>
  \<open>$sum\<close> accumulates from \<open>0\<close> over the documents of the group, in the order of
  insertion, each addition rounded. (In the examples of this theory every total is the
  same when the exact sum is rounded once.)
\<close>

definition js_sum :: "jsnum list \<Rightarrow> jsnum" where
  "js_sum ns = foldl js_add (Fin 0) ns"

text \<open>\<open>{ $match: { type: ty } }\<close>.\<close>

definition match_type :: "string \<Rightarrow> transaction list \<Rightarrow> transaction list" where
  "match_type ty docs = filter (\<lambda>t. type t = ty) docs"

text \<open>
  \<open>{ $group: { _id: null, <field>: { $sum: e } } }\<close>: one result document holding the sum
  when the stage receives a document, no result document when it receives none.
\<close>

definition group_sum :: "(transaction \<Rightarrow> jsnum) \<Rightarrow> transaction list \<Rightarrow> jsnum list" where
  "group_sum e docs = (if docs = [] then [] else [js_sum (map e docs)])"

text \<open>\<open>res[0]?.field\<close>.\<close>

definition first_field :: "jsnum list \<Rightarrow> jsnum option" where
  "first_field res = (case res of [] \<Rightarrow> None | x # rest \<Rightarrow> Some x)"

text \<open>\<open>$cond: [{ $eq: ["$type", "deposit"] }, "$amount", { $multiply: ["$amount", -1] }]\<close>.\<close>

definition signed_amount :: "transaction \<Rightarrow> jsnum" where
  "signed_amount t = (if type t = ''deposit'' then amount t else js_mul (amount t) (Fin (- 1)))"

section \<open>Responses\<close>

text \<open>
  The value a handler passes to \<open>res.json\<close> or \<open>res.send\<close>, before serialisation.
  \<open>MessageNum s n\<close> is the template literal \<open>s${n}\<close>.
\<close>

datatype body =
    Error string
  | Message string
  | MessageNum string jsnum
  | Balance jsnum
  | UserDoc user
  | UserDocs "user list"
  | TransactionDocs "transaction list"

text \<open>
  \<open>Fault\<close>: the handler's promise rejects (a store call threw) and the handler sends
  nothing.
\<close>

datatype response = Response nat body | Fault

section \<open>Bank API\<close>

text \<open>The number \<open>balance\<close> of \<open>GET /balance\<close>.\<close>

definition balance_of :: "transaction list \<Rightarrow> jsnum" where
  "balance_of docs =
     (let deposits = group_sum amount (match_type ''deposit'' docs);
          withdrawals = group_sum amount (match_type ''withdrawal'' docs);
          totalDeposits = or_zero (first_field deposits);
          totalWithdrawals = or_zero (first_field withdrawals)
      in js_sub totalDeposits totalWithdrawals)"

definition get_balance :: "store \<Rightarrow> response" where
  "get_balance s = Response 200 (Balance (balance_of (transactions s)))"

text \<open>
  \<open>POST /deposit\<close>. \<open>oid\<close> and \<open>now\<close> are the \<open>_id\<close> and the \<open>Date.now()\<close> default
  that \<open>new Transaction\<close> gives the document. The last case is
  \<open>typeof amount !== "number"\<close>.
\<close>

definition post_deposit :: "objectid \<Rightarrow> nat \<Rightarrow> jsval \<Rightarrow> store \<Rightarrow> response \<times> store" where
  "post_deposit oid now body_amount s =
     (case body_amount of
        JNumber n \<Rightarrow>
          if js_le n (Fin 0) then (Response 400 (Error ''Invalid deposit amount''), s)
          else
            (case Transaction_save \<lparr>tx_id = oid, type = ''deposit'', amount = n, date = now\<rparr> s of
               Inl err \<Rightarrow> (Fault, s)
             | Inr s' \<Rightarrow> (Response 200 (MessageNum ''Deposited $'' n), s'))
      | other \<Rightarrow> (Response 400 (Error ''Invalid deposit amount''), s))"

text \<open>The number \<open>balance\<close> inside \<open>POST /withdraw\<close>.\<close>

definition withdraw_balance :: "transaction list \<Rightarrow> jsnum" where
  "withdraw_balance docs =
     (let currentBalance = group_sum signed_amount docs
      in or_zero (first_field currentBalance))"

definition post_withdraw :: "objectid \<Rightarrow> nat \<Rightarrow> jsval \<Rightarrow> store \<Rightarrow> response \<times> store" where
  "post_withdraw oid now body_amount s =
     (case body_amount of
        JNumber n \<Rightarrow>
          if js_le n (Fin 0) then (Response 400 (Error ''Invalid withdrawal amount''), s)
          else
            (let balance = withdraw_balance (transactions s) in
             if js_gt n balance then (Response 400 (Error ''Insufficient funds''), s)
             else
               (case Transaction_save
                       \<lparr>tx_id = oid, type = ''withdrawal'', amount = n, date = now\<rparr> s of
                  Inl err \<Rightarrow> (Fault, s)
                | Inr s' \<Rightarrow> (Response 200 (MessageNum ''Withdrew $'' n), s')))
      | other \<Rightarrow> (Response 400 (Error ''Invalid withdrawal amount''), s))"

text \<open>\<open>GET /transactions\<close>: \<open>find().sort({ date: -1 })\<close>, newest first.\<close>

definition get_transactions :: "store \<Rightarrow> response" where
  "get_transactions s = Response 200 (TransactionDocs (rev (sort_key date (transactions s))))"

text \<open>\<open>DELETE /transactions\<close>: \<open>deleteMany({})\<close>.\<close>

definition delete_transactions :: "store \<Rightarrow> response \<times> store" where
  "delete_transactions s =
     (Response 200 (Message ''All transactions cleared.''), s\<lparr>transactions := []\<rparr>)"

section \<open>Users API\<close>

text \<open>
  The two casts of the document mapper that the user routes go through are parameters:
  \<open>castObjectId\<close> on \<open>req.params.id\<close> and \<open>castString\<close> on a \<open>name\<close> that is neither
  \<open>undefined\<close> nor \<open>null\<close>; \<open>None\<close> is a cast error, which the call throws.
\<close>

record casts =
  castObjectId :: "string \<Rightarrow> objectid option"
  castString :: "jsval \<Rightarrow> string option"

definition get_users :: "store \<Rightarrow> response" where
  "get_users s = Response 200 (UserDocs (users s))"

definition findById :: "objectid \<Rightarrow> user list \<Rightarrow> user option" where
  "findById oid docs = find (\<lambda>u. user_id u = oid) docs"

definition get_user :: "casts \<Rightarrow> string \<Rightarrow> store \<Rightarrow> response" where
  "get_user c param_id s =
     (case castObjectId c param_id of
        None \<Rightarrow> Fault
      | Some oid \<Rightarrow>
          (case findById oid (users s) of
             None \<Rightarrow> Response 404 (Error ''User not found'')
           | Some u \<Rightarrow> Response 200 (UserDoc u)))"

text \<open>
  The schema's \<open>String\<close> cast of a \<open>name\<close>: \<open>undefined\<close> and \<open>null\<close> stay without a
  value, a string is kept, any other value goes through \<open>castString\<close>.
\<close>

definition String_cast :: "casts \<Rightarrow> jsval \<Rightarrow> store_error + string option" where
  "String_cast c v =
     (case v of
        JUndefined \<Rightarrow> Inr None
      | JNull \<Rightarrow> Inr None
      | JString str \<Rightarrow> Inr (Some str)
      | other \<Rightarrow>
          (case castString c other of
             None \<Rightarrow> Inl ValidationError
           | Some str \<Rightarrow> Inr (Some str)))"

text \<open>
  \<open>user.save()\<close> validates \<open>name: { type: String, required: true }\<close>: a value that does
  not cast fails, and a missing, \<open>null\<close> or empty name fails the required check.
\<close>

definition User_save :: "casts \<Rightarrow> objectid \<Rightarrow> jsval \<Rightarrow> store \<Rightarrow> store_error + (user \<times> store)" where
  "User_save c oid body_name s =
     (case String_cast c body_name of
        Inl err \<Rightarrow> Inl err
      | Inr None \<Rightarrow> Inl ValidationError
      | Inr (Some str) \<Rightarrow>
          if str = [] then Inl ValidationError
          else
            (let u = \<lparr>user_id = oid, name = Some str\<rparr>
             in Inr (u, s\<lparr>users := users s @ [u]\<rparr>)))"

text \<open>
  \<open>POST /users\<close>. \<open>oid\<close> is the \<open>_id\<close> that \<open>new User\<close> gives the document. The
  rejection of \<open>save()\<close> is not caught.
\<close>

definition post_users :: "casts \<Rightarrow> objectid \<Rightarrow> jsval \<Rightarrow> store \<Rightarrow> response \<times> store" where
  "post_users c oid body_name s =
     (case User_save c oid body_name s of
        Inl err \<Rightarrow> (Fault, s)
      | Inr (u, s') \<Rightarrow> (Response 201 (UserDoc u), s'))"

text \<open>
  \<open>findByIdAndUpdate(id, { name }, { new: true })\<close>: no validator runs on an update; an
  \<open>undefined\<close> name leaves the update empty, \<open>null\<close> is stored as it is. The document is
  returned as it is after the update.
\<close>

fun update_name :: "objectid \<Rightarrow> string option \<Rightarrow> user list \<Rightarrow> user list" where
  "update_name oid v [] = []"
| "update_name oid v (u # us) =
     (if user_id u = oid then u\<lparr>name := v\<rparr> # us else u # update_name oid v us)"

definition findByIdAndUpdate ::
  "casts \<Rightarrow> objectid \<Rightarrow> jsval \<Rightarrow> user list \<Rightarrow> store_error + (user option \<times> user list)" where
  "findByIdAndUpdate c oid body_name docs =
     (if body_name = JUndefined then Inr (findById oid docs, docs)
      else
        (case String_cast c body_name of
           Inl err \<Rightarrow> Inl err
         | Inr v \<Rightarrow>
             (let docs' = update_name oid v docs in Inr (findById oid docs', docs'))))"

definition put_user :: "casts \<Rightarrow> string \<Rightarrow> jsval \<Rightarrow> store \<Rightarrow> response \<times> store" where
  "put_user c param_id body_name s =
     (case castObjectId c param_id of
        None \<Rightarrow> (Fault, s)
      | Some oid \<Rightarrow>
          (case findByIdAndUpdate c oid body_name (users s) of
             Inl err \<Rightarrow> (Fault, s)
           | Inr (None, docs') \<Rightarrow> (Response 404 (Error ''User not found''), s\<lparr>users := docs'\<rparr>)
           | Inr (Some u, docs') \<Rightarrow> (Response 200 (UserDoc u), s\<lparr>users := docs'\<rparr>)))"

text \<open>\<open>findByIdAndDelete(id)\<close> removes the first document with that \<open>_id\<close>.\<close>

fun delete_first :: "objectid \<Rightarrow> user list \<Rightarrow> user list" where
  "delete_first oid [] = []"
| "delete_first oid (u # us) = (if user_id u = oid then us else u # delete_first oid us)"

definition delete_user :: "casts \<Rightarrow> string \<Rightarrow> store \<Rightarrow> response \<times> store" where
  "delete_user c param_id s =
     (case castObjectId c param_id of
        None \<Rightarrow> (Fault, s)
      | Some oid \<Rightarrow>
          (case findById oid (users s) of
             None \<Rightarrow> (Response 404 (Error ''User not found''), s)
           | Some u \<Rightarrow>
               (Response 200 (Message ''User deleted''), s\<lparr>users := delete_first oid (users s)\<rparr>)))"

section \<open>Stores the bank routes can produce\<close>

text \<open>
  The stores reached from the empty one by requests to \<open>POST /deposit\<close>,
  \<open>POST /withdraw\<close> and \<open>DELETE /transactions\<close>, each handled to its end before the next
  starts.
\<close>

inductive reachable :: "store \<Rightarrow> bool" where
  init: "reachable empty_store"
| deposit: "reachable s \<Longrightarrow> reachable (snd (post_deposit oid now body_amount s))"
| withdraw: "reachable s \<Longrightarrow> reachable (snd (post_withdraw oid now body_amount s))"
| clear: "reachable s \<Longrightarrow> reachable (snd (delete_transactions s))"

section \<open>Auxiliary notions\<close>

text \<open>A sum as \<open>v || 0\<close> passes it on: \<open>NaN\<close> becomes \<open>0\<close>.\<close>

definition not_nan :: "jsnum \<Rightarrow> jsnum" where
  "not_nan x = (if x = NaN then Fin 0 else x)"

text \<open>The rational a finite number denotes, and its absolute value.\<close>

definition finite_value :: "jsnum \<Rightarrow> rat" where
  "finite_value x = (case x of Fin q \<Rightarrow> q | other \<Rightarrow> 0)"

definition magnitude :: "jsnum \<Rightarrow> rat" where
  "magnitude x = \<bar>finite_value x\<bar>"

text \<open>
  The balance in the specification's words, in exact arithmetic: the sum of the amounts
  of the deposits minus the sum of the amounts of the withdrawals.
\<close>

definition exact_total :: "string \<Rightarrow> transaction list \<Rightarrow> rat" where
  "exact_total ty docs =
     sum_list (map (\<lambda>t. finite_value (amount t)) (filter (\<lambda>t. type t = ty) docs))"

definition spec_balance :: "transaction list \<Rightarrow> rat" where
  "spec_balance docs = exact_total ''deposit'' docs - exact_total ''withdrawal'' docs"

text \<open>An amount in the specification's words: a positive finite number.\<close>

definition spec_positive_finite :: "jsval \<Rightarrow> bool" where
  "spec_positive_finite v = (case v of JNumber (Fin a) \<Rightarrow> 0 < a | other \<Rightarrow> False)"

text \<open>The data model's invariant on a persisted transaction: \<open>amount > 0\<close>.\<close>

definition positive_amounts :: "transaction list \<Rightarrow> bool" where
  "positive_amounts docs = list_all (\<lambda>t. js_gt (amount t) (Fin 0)) docs"

text \<open>Every kind is one of the schema's two.\<close>

definition known_kinds :: "transaction list \<Rightarrow> bool" where
  "known_kinds docs = list_all (\<lambda>t. type t = ''deposit'' \<or> type t = ''withdrawal'') docs"

text \<open>
  Amounts on which the doubles compute exactly: every amount is an integer, and the
  absolute values of all amounts together stay below \<open>2 ^ 53\<close>, so that every partial
  sum is an integer a double holds.
\<close>

definition integral :: "jsnum \<Rightarrow> bool" where
  "integral x = (case x of Fin q \<Rightarrow> of_int \<lfloor>q\<rfloor> = q | other \<Rightarrow> False)"

definition total_magnitude :: "transaction list \<Rightarrow> rat" where
  "total_magnitude docs = sum_list (map (\<lambda>t. magnitude (amount t)) docs)"

definition exact_amounts :: "transaction list \<Rightarrow> bool" where
  "exact_amounts docs =
     (list_all (\<lambda>t. integral (amount t)) docs \<and> total_magnitude docs < 2 ^ 53)"

text \<open>
  The condition of the first \<open>if\<close> of both handlers:
  \<open>typeof amount !== "number" || amount <= 0\<close>.
\<close>

definition invalid_amount :: "jsval \<Rightarrow> bool" where
  "invalid_amount v =
     (typeof v \<noteq> ''number'' \<or> (case v of JNumber n \<Rightarrow> js_le n (Fin 0) | other \<Rightarrow> False))"

section \<open>Comparisons with zero\<close>

lemma js_gt_zero_cases: "js_gt x (Fin 0) = (x = PInf \<or> (\<exists>a. x = Fin a \<and> 0 < a))"
  by (cases x) (simp_all add: js_gt_def)

lemma js_ge_zero_cases: "js_ge x (Fin 0) = (x = PInf \<or> (\<exists>a. x = Fin a \<and> 0 \<le> a))"
  by (cases x) (auto simp add: js_ge_def js_le_def js_eq_def)

lemma validated_positive: "\<not> js_le n (Fin 0) \<Longrightarrow> n \<noteq> NaN \<Longrightarrow> js_gt n (Fin 0)"
  by (cases n) (auto simp add: js_le_def js_eq_def js_gt_def)

lemma positive_not_le: "js_gt n (Fin 0) \<Longrightarrow> \<not> js_le n (Fin 0) \<and> n \<noteq> NaN"
  by (cases n) (auto simp add: js_le_def js_eq_def js_gt_def)

lemma js_le_not_gt: "js_le n b \<Longrightarrow> \<not> js_gt n b"
  by (cases n; cases b) (auto simp add: js_le_def js_eq_def js_gt_def)

lemma js_le_zero_cases: "js_le n (Fin 0) = (n = NInf \<or> (\<exists>a. n = Fin a \<and> a \<le> 0))"
  by (cases n) (auto simp add: js_le_def js_eq_def)

section \<open>What the handlers do to the store\<close>

lemma post_deposit_number:
  "post_deposit oid now (JNumber n) s =
     (if js_le n (Fin 0) then (Response 400 (Error ''Invalid deposit amount''), s)
      else if n = NaN then (Fault, s)
      else (Response 200 (MessageNum ''Deposited $'' n),
            s\<lparr>transactions := transactions s
                  @ [\<lparr>tx_id = oid, type = ''deposit'', amount = n, date = now\<rparr>]\<rparr>))"
  by (simp add: post_deposit_def Transaction_save_def validate_transaction_def)

lemma post_deposit_other:
  "typeof v \<noteq> ''number'' \<Longrightarrow>
   post_deposit oid now v s = (Response 400 (Error ''Invalid deposit amount''), s)"
  by (cases v) (simp_all add: post_deposit_def)

lemma post_withdraw_number:
  "post_withdraw oid now (JNumber n) s =
     (if js_le n (Fin 0) then (Response 400 (Error ''Invalid withdrawal amount''), s)
      else if js_gt n (withdraw_balance (transactions s))
        then (Response 400 (Error ''Insufficient funds''), s)
      else if n = NaN then (Fault, s)
      else (Response 200 (MessageNum ''Withdrew $'' n),
            s\<lparr>transactions := transactions s
                  @ [\<lparr>tx_id = oid, type = ''withdrawal'', amount = n, date = now\<rparr>]\<rparr>))"
  by (simp add: post_withdraw_def Let_def Transaction_save_def validate_transaction_def)

lemma post_withdraw_other:
  "typeof v \<noteq> ''number'' \<Longrightarrow>
   post_withdraw oid now v s = (Response 400 (Error ''Invalid withdrawal amount''), s)"
  by (cases v) (simp_all add: post_withdraw_def)

lemma typeof_number: "(typeof v = ''number'') = (\<exists>n. v = JNumber n)"
  by (cases v) simp_all

text \<open>What a request leaves in the store: nothing new, or one validated document.\<close>

lemma post_deposit_store:
  "snd (post_deposit oid now v s) = s \<or>
   (\<exists>n. v = JNumber n \<and> js_gt n (Fin 0) \<and>
        snd (post_deposit oid now v s) =
          s\<lparr>transactions := transactions s
                @ [\<lparr>tx_id = oid, type = ''deposit'', amount = n, date = now\<rparr>]\<rparr>)"
proof (cases "typeof v = ''number''")
  case False
  then show ?thesis by (simp add: post_deposit_other)
next
  case True
  then obtain n where v: "v = JNumber n" by (auto simp add: typeof_number)
  show ?thesis
    unfolding v by (simp add: post_deposit_number validated_positive)
qed

lemma post_withdraw_store:
  "snd (post_withdraw oid now v s) = s \<or>
   (\<exists>n. v = JNumber n \<and> js_gt n (Fin 0) \<and> \<not> js_gt n (withdraw_balance (transactions s)) \<and>
        snd (post_withdraw oid now v s) =
          s\<lparr>transactions := transactions s
                @ [\<lparr>tx_id = oid, type = ''withdrawal'', amount = n, date = now\<rparr>]\<rparr>)"
proof (cases "typeof v = ''number''")
  case False
  then show ?thesis by (simp add: post_withdraw_other)
next
  case True
  then obtain n where v: "v = JNumber n" by (auto simp add: typeof_number)
  show ?thesis
    unfolding v by (simp add: post_withdraw_number validated_positive)
qed

lemma positive_amounts_snoc:
  "positive_amounts (docs @ [t]) = (positive_amounts docs \<and> js_gt (amount t) (Fin 0))"
  by (simp add: positive_amounts_def)

lemma known_kinds_snoc:
  "known_kinds (docs @ [t]) = (known_kinds docs \<and> (type t = ''deposit'' \<or> type t = ''withdrawal''))"
  by (simp add: known_kinds_def)

lemma post_users_transactions: "transactions (snd (post_users c oid v s)) = transactions s"
  by (auto simp add: post_users_def User_save_def Let_def split: option.splits sum.splits)

lemma put_user_transactions: "transactions (snd (put_user c pid v s)) = transactions s"
  by (auto simp add: put_user_def split: option.splits sum.splits)

lemma delete_user_transactions: "transactions (snd (delete_user c pid s)) = transactions s"
  by (auto simp add: delete_user_def split: option.splits)

lemma post_deposit_users: "users (snd (post_deposit oid now v s)) = users s"
  using post_deposit_store [of oid now v s] by auto

lemma post_withdraw_users: "users (snd (post_withdraw oid now v s)) = users s"
  using post_withdraw_store [of oid now v s] by auto

section \<open>The validation of the amount\<close>

lemma positive_finite_cases:
  "spec_positive_finite v = (\<exists>a. v = JNumber (Fin a) \<and> 0 < a)"
  by (auto simp add: spec_positive_finite_def split: jsval.splits jsnum.splits)

lemma deposit_invalid_iff:
  "(fst (post_deposit oid now v s) = Response 400 (Error ''Invalid deposit amount''))
     = (\<not> spec_positive_finite v \<and> v \<noteq> JNumber PInf \<and> v \<noteq> JNumber NaN)"
proof (cases "typeof v = ''number''")
  case False
  then show ?thesis
    by (auto simp add: post_deposit_other positive_finite_cases)
next
  case True
  then obtain n where v: "v = JNumber n" by (auto simp add: typeof_number)
  show ?thesis
    unfolding v by (cases n) (auto simp add: post_deposit_number positive_finite_cases js_le_zero_cases)
qed

lemma withdraw_invalid_iff:
  "(fst (post_withdraw oid now v s) = Response 400 (Error ''Invalid withdrawal amount''))
     = (\<not> spec_positive_finite v \<and> v \<noteq> JNumber PInf \<and> v \<noteq> JNumber NaN)"
proof (cases "typeof v = ''number''")
  case False
  then show ?thesis
    by (auto simp add: post_withdraw_other positive_finite_cases)
next
  case True
  then obtain n where v: "v = JNumber n" by (auto simp add: typeof_number)
  show ?thesis
    unfolding v by (cases n) (auto simp add: post_withdraw_number positive_finite_cases js_le_zero_cases)
qed

section \<open>Integers that a double holds\<close>

lemma round_half_even_int: "round_half_even (of_int m) = m"
  by (simp add: round_half_even_def)

lemma round_magnitude_int:
  assumes "0 < k" and "k < 2 ^ 53"
  shows "round_magnitude (of_int k) = of_int k"
proof -
  have one: "(1::rat) \<le> of_int k"
    using assms(1) by simp
  have "bitlen k \<le> 53"
    using assms(2) by (simp add: bitlen_le_iff_power)
  then have e: "max (bitlen k - 1 - 52) (- 1074) \<le> 0"
    by simp
  define e where "e = max (bitlen k - 1 - 52) (- 1074)"
  with e have e0: "e \<le> 0" by simp
  then have p: "pow2 e = 1 / 2 ^ nat (- e)"
    by (cases "e = 0") (simp_all add: pow2_def)
  have "of_int k / pow2 e = (of_int (k * 2 ^ nat (- e)) :: rat)"
    by (simp add: p)
  then have "round_half_even (of_int k / pow2 e) = k * 2 ^ nat (- e)"
    by (simp only: round_half_even_int)
  then have "of_int (round_half_even (of_int k / pow2 e)) * pow2 e = (of_int k :: rat)"
    by (simp add: p)
  then show ?thesis
    using one by (simp add: round_magnitude_def ilog2_def Let_def e_def)
qed

lemma pow2_1024_large: "(of_int k :: rat) < pow2 1024" if "k < 2 ^ 53"
proof -
  have "(2::int) ^ 53 \<le> 2 ^ 1024"
    by (rule power_increasing) simp_all
  with that have "k < 2 ^ 1024" by linarith
  then have "(of_int k :: rat) < of_int (2 ^ 1024)"
    by (simp only: of_int_less_iff)
  then show ?thesis by (simp add: pow2_def)
qed

lemma round_double_int:
  assumes "\<bar>k\<bar> < 2 ^ 53"
  shows "round_double (of_int k) = Fin (of_int k)"
proof (cases "k = 0")
  case True
  then show ?thesis by (simp add: round_double_def)
next
  case False
  then have pos: "0 < \<bar>k\<bar>" by simp
  have abs: "\<bar>of_int k :: rat\<bar> = of_int \<bar>k\<bar>" by simp
  have r: "round_magnitude \<bar>of_int k :: rat\<bar> = of_int \<bar>k\<bar>"
    unfolding abs using pos assms by (rule round_magnitude_int)
  have small: "\<not> pow2 1024 \<le> (of_int \<bar>k\<bar> :: rat)"
    using pow2_1024_large [OF assms] by simp
  show ?thesis
  proof (cases "0 < k")
    case True
    with False r small show ?thesis
      by (simp add: round_double_def Let_def)
  next
    case neg: False
    with False have "k < 0" by simp
    with False r small show ?thesis
      by (simp add: round_double_def Let_def)
  qed
qed

section \<open>Sums that the doubles compute exactly\<close>

lemma integral_cases: "integral x = (\<exists>k. x = Fin (of_int k))"
  by (cases x) (simp_all add: integral_def)

lemma round_double_integer:
  assumes "of_int \<lfloor>q\<rfloor> = q" and "\<bar>q\<bar> < 2 ^ 53"
  shows "round_double q = Fin q"
proof -
  from assms(1) obtain k where q: "q = of_int k" by metis
  from assms(2) have "(of_int \<bar>k\<bar> :: rat) < of_int (2 ^ 53)"
    by (simp add: q)
  then have "\<bar>k\<bar> < 2 ^ 53"
    by (simp only: of_int_less_iff)
  then show ?thesis
    unfolding q by (rule round_double_int)
qed

lemma js_add_exact:
  assumes "integral x" and "integral y" and "magnitude x + magnitude y < 2 ^ 53"
  shows "js_add x y = Fin (finite_value x + finite_value y)"
proof -
  from assms(1,2) obtain a b where x: "x = Fin (of_int a)" and y: "y = Fin (of_int b)"
    by (auto simp add: integral_cases)
  have i: "of_int \<lfloor>of_int a + of_int b :: rat\<rfloor> = (of_int a + of_int b :: rat)"
    by simp
  have "\<bar>of_int a + of_int b :: rat\<bar> \<le> \<bar>of_int a\<bar> + \<bar>of_int b\<bar>"
    by (rule abs_triangle_ineq)
  with assms(3) have "\<bar>of_int a + of_int b :: rat\<bar> < 2 ^ 53"
    by (simp add: x y magnitude_def finite_value_def)
  with i have "round_double (of_int a + of_int b) = Fin (of_int a + of_int b)"
    by (rule round_double_integer)
  then show ?thesis
    by (simp add: x y finite_value_def)
qed

lemma integral_sum: "integral x \<Longrightarrow> integral y \<Longrightarrow> integral (Fin (finite_value x + finite_value y))"
  by (auto simp add: integral_cases finite_value_def) (metis of_int_add)

lemma foldl_exact:
  assumes "list_all integral ns" and "integral acc"
      and "magnitude acc + sum_list (map magnitude ns) < 2 ^ 53"
  shows "foldl js_add acc ns = Fin (finite_value acc + sum_list (map finite_value ns))"
  using assms
proof (induction ns arbitrary: acc)
  case Nil
  then show ?case by (auto simp add: integral_cases finite_value_def)
next
  case (Cons n ns)
  have m0: "0 \<le> sum_list (map magnitude ns)"
    by (rule sum_list_nonneg) (auto simp add: magnitude_def)
  from Cons.prems have n: "integral n" and ns: "list_all integral ns" by simp_all
  from Cons.prems(3) m0 have "magnitude acc + magnitude n < 2 ^ 53" by simp
  with Cons.prems(2) n have step: "js_add acc n = Fin (finite_value acc + finite_value n)"
    by (rule js_add_exact)
  have i: "integral (Fin (finite_value acc + finite_value n))"
    using Cons.prems(2) n by (rule integral_sum)
  have "magnitude (Fin (finite_value acc + finite_value n)) \<le> magnitude acc + magnitude n"
    by (simp add: magnitude_def finite_value_def)
  with Cons.prems(3)
  have b: "magnitude (Fin (finite_value acc + finite_value n)) + sum_list (map magnitude ns) < 2 ^ 53"
    by simp
  from Cons.IH [OF ns i b] show ?case
    by (simp add: step finite_value_def)
qed

lemma js_sum_exact:
  assumes "list_all integral ns" and "sum_list (map magnitude ns) < 2 ^ 53"
  shows "js_sum ns = Fin (sum_list (map finite_value ns))"
proof -
  have "integral (Fin 0)" by (simp add: integral_def)
  moreover have "magnitude (Fin 0) + sum_list (map magnitude ns) < 2 ^ 53"
    using assms(2) by (simp add: magnitude_def finite_value_def)
  ultimately have "foldl js_add (Fin 0) ns = Fin (finite_value (Fin 0) + sum_list (map finite_value ns))"
    using assms(1) by (intro foldl_exact)
  then show ?thesis by (simp add: js_sum_def finite_value_def)
qed

lemma magnitude_nonneg: "0 \<le> magnitude x"
  by (simp add: magnitude_def)

lemma filter_magnitude_le:
  "sum_list (map (\<lambda>t. magnitude (amount t)) (filter P docs)) \<le> total_magnitude docs"
  by (induction docs) (simp_all add: total_magnitude_def magnitude_nonneg add_increasing)

lemma exact_total_sum:
  assumes "exact_amounts docs"
  shows "js_sum (map amount (match_type ty docs)) = Fin (exact_total ty docs)"
proof -
  from assms have "list_all integral (map amount (match_type ty docs))"
    by (auto simp add: exact_amounts_def match_type_def list_all_iff)
  moreover have "sum_list (map magnitude (map amount (match_type ty docs))) < 2 ^ 53"
    using filter_magnitude_le [of "\<lambda>t. type t = ty" docs] assms
    by (simp add: exact_amounts_def match_type_def comp_def)
  ultimately have "js_sum (map amount (match_type ty docs))
      = Fin (sum_list (map finite_value (map amount (match_type ty docs))))"
    by (rule js_sum_exact)
  then show ?thesis
    by (simp add: exact_total_def match_type_def comp_def)
qed

lemma two_totals_le:
  "\<bar>exact_total ''deposit'' docs\<bar> + \<bar>exact_total ''withdrawal'' docs\<bar> \<le> total_magnitude docs"
proof (induction docs)
  case Nil
  show ?case by (simp add: exact_total_def total_magnitude_def)
next
  case (Cons t docs)
  let ?D = "exact_total ''deposit'' docs"
  let ?W = "exact_total ''withdrawal'' docs"
  let ?v = "finite_value (amount t)"
  have tail: "total_magnitude (t # docs) = \<bar>?v\<bar> + total_magnitude docs"
    by (simp add: total_magnitude_def magnitude_def)
  show ?case
  proof (cases "type t = ''deposit''")
    case True
    then have "exact_total ''deposit'' (t # docs) = ?v + ?D"
        "exact_total ''withdrawal'' (t # docs) = ?W"
      by (simp_all add: exact_total_def)
    with Cons tail show ?thesis by linarith
  next
    case False
    show ?thesis
    proof (cases "type t = ''withdrawal''")
      case True
      with False have "exact_total ''deposit'' (t # docs) = ?D"
          "exact_total ''withdrawal'' (t # docs) = ?v + ?W"
        by (simp_all add: exact_total_def)
      with Cons tail show ?thesis by linarith
    next
      case other: False
      with False have "exact_total ''deposit'' (t # docs) = ?D"
          "exact_total ''withdrawal'' (t # docs) = ?W"
        by (simp_all add: exact_total_def)
      with Cons tail show ?thesis by linarith
    qed
  qed
qed

lemma exact_total_integer:
  assumes "exact_amounts docs"
  shows "\<exists>j. exact_total ty docs = of_int j"
proof -
  from assms have "list_all (\<lambda>t. integral (amount t)) docs"
    by (simp add: exact_amounts_def)
  then show ?thesis
  proof (induction docs)
    case Nil
    have "exact_total ty [] = of_int 0" by (simp add: exact_total_def)
    then show ?case by blast
  next
    case (Cons t docs)
    then obtain k where k: "amount t = Fin (of_int k)"
      by (auto simp add: integral_cases)
    from Cons obtain j where j: "exact_total ty docs = of_int j"
      by auto
    show ?case
    proof (cases "type t = ty")
      case True
      then have "exact_total ty (t # docs) = of_int (k + j)"
        using k j by (simp add: exact_total_def finite_value_def)
      then show ?thesis by blast
    next
      case False
      then have "exact_total ty (t # docs) = of_int j"
        using j by (simp add: exact_total_def)
      then show ?thesis by blast
    qed
  qed
qed

lemma js_sum_Nil: "js_sum [] = Fin 0"
  by (simp add: js_sum_def)

lemma or_zero_group_sum: "or_zero (first_field (group_sum e docs)) = not_nan (js_sum (map e docs))"
  by (cases docs) (simp_all add: or_zero_def first_field_def group_sum_def not_nan_def js_sum_Nil)

lemma balance_of_sums:
  "balance_of docs =
     js_sub (not_nan (js_sum (map amount (match_type ''deposit'' docs))))
            (not_nan (js_sum (map amount (match_type ''withdrawal'' docs))))"
  by (simp add: balance_of_def Let_def or_zero_group_sum)

lemma withdraw_balance_sum: "withdraw_balance docs = not_nan (js_sum (map signed_amount docs))"
  by (simp add: withdraw_balance_def Let_def or_zero_group_sum)

lemma balance_of_exact:
  assumes "exact_amounts docs"
  shows "balance_of docs = Fin (spec_balance docs)"
proof -
  let ?D = "exact_total ''deposit'' docs"
  let ?W = "exact_total ''withdrawal'' docs"
  from exact_total_integer [OF assms] obtain d w where "?D = of_int d" "?W = of_int w"
    by metis
  then have "?D - ?W = of_int (d - w)" by simp
  then have "of_int \<lfloor>?D - ?W\<rfloor> = ?D - ?W"
    by (simp only: floor_of_int)
  moreover have "\<bar>?D - ?W\<bar> < 2 ^ 53"
  proof -
    from assms have "total_magnitude docs < 2 ^ 53"
      by (simp add: exact_amounts_def)
    with two_totals_le [of docs] show ?thesis by linarith
  qed
  ultimately have r: "round_double (?D - ?W) = Fin (?D - ?W)"
    by (rule round_double_integer)
  have "balance_of docs = js_sub (Fin ?D) (Fin ?W)"
    by (simp add: balance_of_sums exact_total_sum [OF assms] not_nan_def)
  also have "\<dots> = round_double (?D - ?W)"
    by (simp add: js_sub_def)
  finally show ?thesis
    by (simp add: r spec_balance_def)
qed

lemma member_magnitude_le: "t \<in> set docs \<Longrightarrow> magnitude (amount t) \<le> total_magnitude docs"
proof (induction docs)
  case Nil
  then show ?case by simp
next
  case (Cons u docs)
  have "0 \<le> total_magnitude docs"
    unfolding total_magnitude_def by (rule sum_list_nonneg) (auto simp add: magnitude_nonneg)
  with Cons magnitude_nonneg [of "amount u"] show ?case
    by (auto simp add: total_magnitude_def)
qed

lemma signed_amount_exact:
  assumes "integral (amount t)" and "magnitude (amount t) < 2 ^ 53"
  shows "signed_amount t =
     Fin (if type t = ''deposit'' then finite_value (amount t) else - finite_value (amount t))"
proof -
  from assms(1) obtain k where k: "amount t = Fin (of_int k)"
    by (auto simp add: integral_cases)
  have "of_int \<lfloor>- of_int k :: rat\<rfloor> = (- of_int k :: rat)"
    by (metis of_int_minus floor_of_int)
  moreover from assms(2) have "\<bar>- of_int k :: rat\<bar> < 2 ^ 53"
    by (simp add: k magnitude_def finite_value_def)
  ultimately have "round_double (- of_int k) = Fin (- of_int k)"
    by (rule round_double_integer)
  then show ?thesis
    by (simp add: signed_amount_def k finite_value_def)
qed

lemma signed_values:
  assumes "exact_amounts docs" and "t \<in> set docs"
  shows "integral (signed_amount t)" and "magnitude (signed_amount t) = magnitude (amount t)"
    and "finite_value (signed_amount t) =
      (if type t = ''deposit'' then finite_value (amount t) else - finite_value (amount t))"
proof -
  from assms have i: "integral (amount t)"
    by (simp add: exact_amounts_def list_all_iff)
  from assms member_magnitude_le [OF assms(2)] have m: "magnitude (amount t) < 2 ^ 53"
    by (simp add: exact_amounts_def)
  note s = signed_amount_exact [OF i m]
  from i obtain k where k: "amount t = Fin (of_int k)"
    by (auto simp add: integral_cases)
  show "integral (signed_amount t)"
    unfolding s integral_cases k by (auto simp add: finite_value_def) (metis of_int_minus)
  show "magnitude (signed_amount t) = magnitude (amount t)"
    unfolding s by (simp add: magnitude_def finite_value_def)
  show "finite_value (signed_amount t) =
      (if type t = ''deposit'' then finite_value (amount t) else - finite_value (amount t))"
    unfolding s by (simp add: finite_value_def)
qed

lemma signed_values_sum:
  "known_kinds docs \<Longrightarrow>
   sum_list (map (\<lambda>t. if type t = ''deposit'' then finite_value (amount t)
                       else - finite_value (amount t)) docs) = spec_balance docs"
  by (induction docs) (auto simp add: known_kinds_def spec_balance_def exact_total_def)

lemma withdraw_balance_exact:
  assumes ex: "exact_amounts docs" and kinds: "known_kinds docs"
  shows "withdraw_balance docs = Fin (spec_balance docs)"
proof -
  have i: "list_all integral (map signed_amount docs)"
    using signed_values(1) [OF ex] by (simp add: list_all_iff)
  have m: "map magnitude (map signed_amount docs) = map (\<lambda>t. magnitude (amount t)) docs"
    using signed_values(2) [OF ex] by simp
  have b: "sum_list (map magnitude (map signed_amount docs)) < 2 ^ 53"
    unfolding m using ex by (simp add: exact_amounts_def total_magnitude_def)
  have f: "map finite_value (map signed_amount docs)
      = map (\<lambda>t. if type t = ''deposit'' then finite_value (amount t)
                       else - finite_value (amount t)) docs"
    using signed_values(3) [OF ex] by simp
  from i b have "js_sum (map signed_amount docs)
      = Fin (sum_list (map finite_value (map signed_amount docs)))"
    by (rule js_sum_exact)
  then have "js_sum (map signed_amount docs) = Fin (spec_balance docs)"
    unfolding f by (simp only: signed_values_sum [OF kinds])
  then show ?thesis
    by (simp add: withdraw_balance_sum not_nan_def)
qed

lemma exact_amounts_snoc:
  "exact_amounts (docs @ [t]) \<Longrightarrow> exact_amounts docs \<and> integral (amount t)"
  using magnitude_nonneg [of "amount t"]
  by (auto simp add: exact_amounts_def total_magnitude_def)

lemma spec_balance_deposit:
  "spec_balance (docs @ [\<lparr>tx_id = oid, type = ''deposit'', amount = n, date = now\<rparr>])
     = spec_balance docs + finite_value n"
  by (simp add: spec_balance_def exact_total_def)

lemma spec_balance_withdrawal:
  "spec_balance (docs @ [\<lparr>tx_id = oid, type = ''withdrawal'', amount = n, date = now\<rparr>])
     = spec_balance docs - finite_value n"
  by (simp add: spec_balance_def exact_total_def)

lemma balance_of_Nil: "balance_of [] = Fin 0"
  by (simp add: balance_of_sums match_type_def js_sum_Nil not_nan_def js_sub_def round_double_def)

lemma reachable_invariant:
  "reachable s \<Longrightarrow>
   positive_amounts (transactions s) \<and> known_kinds (transactions s)
   \<and> (exact_amounts (transactions s) \<longrightarrow> 0 \<le> spec_balance (transactions s))"
proof (induction rule: reachable.induct)
  case init
  show ?case
    by (simp add: empty_store_def positive_amounts_def known_kinds_def spec_balance_def
        exact_total_def)
next
  case (deposit s oid now body_amount)
  from post_deposit_store [of oid now body_amount s] show ?case
  proof
    assume "snd (post_deposit oid now body_amount s) = s"
    with deposit.IH show ?thesis by simp
  next
    assume "\<exists>n. body_amount = JNumber n \<and> js_gt n (Fin 0) \<and>
        snd (post_deposit oid now body_amount s) =
          s\<lparr>transactions := transactions s
                @ [\<lparr>tx_id = oid, type = ''deposit'', amount = n, date = now\<rparr>]\<rparr>"
    then obtain n where n: "js_gt n (Fin 0)"
      and s': "snd (post_deposit oid now body_amount s) =
          s\<lparr>transactions := transactions s
                @ [\<lparr>tx_id = oid, type = ''deposit'', amount = n, date = now\<rparr>]\<rparr>"
      by blast
    from n have "0 \<le> finite_value n"
      by (auto simp add: js_gt_zero_cases finite_value_def)
    then have "0 \<le> spec_balance (transactions s
                @ [\<lparr>tx_id = oid, type = ''deposit'', amount = n, date = now\<rparr>])"
      if "exact_amounts (transactions s
                @ [\<lparr>tx_id = oid, type = ''deposit'', amount = n, date = now\<rparr>])"
      using exact_amounts_snoc [OF that] deposit.IH by (simp add: spec_balance_deposit)
    with deposit.IH n show ?thesis
      by (simp add: s' positive_amounts_snoc known_kinds_snoc)
  qed
next
  case (withdraw s oid now body_amount)
  from post_withdraw_store [of oid now body_amount s] show ?case
  proof
    assume "snd (post_withdraw oid now body_amount s) = s"
    with withdraw.IH show ?thesis by simp
  next
    assume "\<exists>n. body_amount = JNumber n \<and> js_gt n (Fin 0) \<and>
        \<not> js_gt n (withdraw_balance (transactions s)) \<and>
        snd (post_withdraw oid now body_amount s) =
          s\<lparr>transactions := transactions s
                @ [\<lparr>tx_id = oid, type = ''withdrawal'', amount = n, date = now\<rparr>]\<rparr>"
    then obtain n where n: "js_gt n (Fin 0)"
      and adm: "\<not> js_gt n (withdraw_balance (transactions s))"
      and s': "snd (post_withdraw oid now body_amount s) =
          s\<lparr>transactions := transactions s
                @ [\<lparr>tx_id = oid, type = ''withdrawal'', amount = n, date = now\<rparr>]\<rparr>"
      by blast
    have "0 \<le> spec_balance (transactions s
                @ [\<lparr>tx_id = oid, type = ''withdrawal'', amount = n, date = now\<rparr>])"
      if ex: "exact_amounts (transactions s
                @ [\<lparr>tx_id = oid, type = ''withdrawal'', amount = n, date = now\<rparr>])"
    proof -
      from exact_amounts_snoc [OF ex] have e: "exact_amounts (transactions s)"
        and i: "integral n" by simp_all
      from e withdraw.IH have "withdraw_balance (transactions s) = Fin (spec_balance (transactions s))"
        by (simp add: withdraw_balance_exact)
      with adm i have "finite_value n \<le> spec_balance (transactions s)"
        by (auto simp add: integral_cases js_gt_def finite_value_def)
      then show ?thesis by (simp add: spec_balance_withdrawal)
    qed
    with withdraw.IH n show ?thesis
      by (simp add: s' positive_amounts_snoc known_kinds_snoc)
  qed
next
  case (clear s)
  show ?case
    by (simp add: delete_transactions_def positive_amounts_def known_kinds_def spec_balance_def
        exact_total_def)
qed

section \<open>Roundings checked from their exponent\<close>

lemma pow2_powi: "pow2 k = 2 powi k"
proof (cases "0 \<le> k")
  case True
  then show ?thesis by (simp add: pow2_def power_int_def)
next
  case False
  have "(1::rat) / 2 ^ nat (- k) = (1 / 2) ^ nat (- k)"
    by (simp only: power_one_over)
  with False show ?thesis
    by (simp add: pow2_def power_int_def inverse_eq_divide)
qed

lemma pow2_pos: "0 < pow2 k"
  by (simp add: pow2_def)

lemma pow2_less_cancel: "pow2 a < pow2 b \<Longrightarrow> a < b"
proof (rule ccontr)
  assume "pow2 a < pow2 b" and "\<not> a < b"
  then have "b \<le> a" by simp
  then have "(2::rat) powi b \<le> 2 powi a"
    by (rule power_int_increasing) simp
  with \<open>pow2 a < pow2 b\<close> show False
    by (simp add: pow2_powi)
qed

lemma pow2_Suc: "pow2 (k + 1) = 2 * pow2 k"
  by (simp add: pow2_powi power_int_add_1')

lemma pow2_neg: "pow2 (- k) = 1 / pow2 k"
  by (simp add: pow2_powi power_int_minus_divide)

lemma pow2_nat: "0 \<le> k \<Longrightarrow> pow2 k = of_int (2 ^ nat k)"
  by (simp add: pow2_def)

lemma floor_bitlen_bounds:
  assumes "1 \<le> (y::rat)"
  shows "pow2 (bitlen \<lfloor>y\<rfloor> - 1) \<le> y" and "y < pow2 (bitlen \<lfloor>y\<rfloor>)"
proof -
  from assms have pos: "0 < \<lfloor>y\<rfloor>" by simp
  from bitlen_bounds [OF pos] have lo: "2 ^ nat (bitlen \<lfloor>y\<rfloor> - 1) \<le> \<lfloor>y\<rfloor>"
    and hi: "\<lfloor>y\<rfloor> < 2 ^ nat (bitlen \<lfloor>y\<rfloor>)" by simp_all
  from pos have b1: "1 \<le> bitlen \<lfloor>y\<rfloor>"
    by (simp add: bitlen_ge_iff_power)
  from lo have "(of_int (2 ^ nat (bitlen \<lfloor>y\<rfloor> - 1)) :: rat) \<le> of_int \<lfloor>y\<rfloor>"
    by (simp only: of_int_le_iff)
  also have "\<dots> \<le> y" by (rule of_int_floor_le)
  finally show "pow2 (bitlen \<lfloor>y\<rfloor> - 1) \<le> y"
    using b1 by (simp add: pow2_nat)
  from hi have "\<lfloor>y\<rfloor> + 1 \<le> 2 ^ nat (bitlen \<lfloor>y\<rfloor>)" by simp
  then have "(of_int (\<lfloor>y\<rfloor> + 1) :: rat) \<le> of_int (2 ^ nat (bitlen \<lfloor>y\<rfloor>))"
    by (simp only: of_int_le_iff)
  moreover have "y < of_int (\<lfloor>y\<rfloor> + 1)"
    by simp linarith
  ultimately have "y < of_int (2 ^ nat (bitlen \<lfloor>y\<rfloor>))" by simp
  then show "y < pow2 (bitlen \<lfloor>y\<rfloor>)"
    using b1 by (simp add: pow2_nat)
qed

lemma ilog2_bounds:
  assumes "0 < x"
  shows "pow2 (ilog2 x) \<le> x \<and> x < pow2 (ilog2 x + 1)"
proof (cases "1 \<le> x")
  case True
  with floor_bitlen_bounds [OF True] show ?thesis
    by (simp add: ilog2_def)
next
  case False
  with assms have y: "1 \<le> 1 / x" by simp
  define k where "k = bitlen \<lfloor>1 / x\<rfloor> - 1"
  from floor_bitlen_bounds [OF y] have lo: "pow2 k \<le> 1 / x" and hi: "1 / x < pow2 (k + 1)"
    by (simp_all add: k_def)
  have "1 / pow2 (k + 1) < x"
  proof -
    from hi assms have "1 < pow2 (k + 1) * x"
      by (simp add: pos_divide_less_eq)
    with pow2_pos [of "k + 1"] show ?thesis
      by (simp add: pos_divide_less_eq mult.commute)
  qed
  moreover have "- k - 1 = - (k + 1)" by simp
  ultimately have xlo: "pow2 (- k - 1) < x"
    by (simp only: pow2_neg)
  have il: "ilog2 x = (if pow2 k = 1 / x then - k else - k - 1)"
    using False by (simp add: ilog2_def Let_def k_def)
  show ?thesis
  proof (cases "pow2 k = 1 / x")
    case True
    then have x: "x = pow2 (- k)"
      using assms by (simp add: pow2_neg)
    have "pow2 (- k) < pow2 (- k + 1)"
      using pow2_pos [of "- k"] by (simp only: pow2_Suc)
    then have "pow2 (- k) \<le> x \<and> x < pow2 (- k + 1)"
      by (simp only: x) simp
    moreover from True il have "ilog2 x = - k" by simp
    ultimately show ?thesis by simp
  next
    case ne: False
    with lo have "pow2 k < 1 / x" by simp
    with assms have "pow2 k * x < 1"
      by (simp add: pos_less_divide_eq)
    with pow2_pos [of k] have "x < pow2 (- k)"
      by (simp add: pow2_neg pos_less_divide_eq mult.commute)
    moreover have "- k - 1 + 1 = - k" by simp
    ultimately have "pow2 (- k - 1) \<le> x \<and> x < pow2 (- k - 1 + 1)"
      using xlo by simp
    moreover from ne il have "ilog2 x = - k - 1" by simp
    ultimately show ?thesis by simp
  qed
qed

lemma ilog2_unique:
  assumes "0 < x" and "pow2 L \<le> x" and "x < pow2 (L + 1)"
  shows "ilog2 x = L"
proof -
  from ilog2_bounds [OF assms(1)] have lo: "pow2 (ilog2 x) \<le> x" and hi: "x < pow2 (ilog2 x + 1)"
    by simp_all
  from lo assms(3) have "pow2 (ilog2 x) < pow2 (L + 1)" by simp
  then have "ilog2 x < L + 1" by (rule pow2_less_cancel)
  moreover from assms(2) hi have "pow2 L < pow2 (ilog2 x + 1)" by simp
  then have "L < ilog2 x + 1" by (rule pow2_less_cancel)
  ultimately show ?thesis by simp
qed

lemma round_double_minus: "round_double (- x) = js_neg (round_double x)"
  by (simp add: round_double_def Let_def)

lemma floor_numeral_div: "\<lfloor>numeral a / numeral b :: rat\<rfloor> = numeral a div numeral b"
  using floor_divide_of_int_eq [of "numeral a" "numeral b", where ?'a = rat] by simp

text \<open>A rounding, checked from its exponent and its significand.\<close>

lemma round_double_check:
  assumes "0 < x" and "pow2 L \<le> x" and "x < pow2 (L + 1)"
      and "round_half_even (x / pow2 (max (L - 52) (- 1074))) = m"
      and "of_int m * pow2 (max (L - 52) (- 1074)) = r" and "r < pow2 1024"
  shows "round_double x = Fin r"
proof -
  from assms(1-3) have "ilog2 x = L" by (rule ilog2_unique)
  with assms(4,5) have "round_magnitude x = r"
    by (simp add: round_magnitude_def Let_def)
  with assms(1,6) show ?thesis
    by (simp add: round_double_def Let_def)
qed

lemma round_double_zero: "round_double 0 = Fin 0"
  by (simp add: round_double_def)

lemma round_double_numeral:
  "(numeral n :: int) < 2 ^ 53 \<Longrightarrow> round_double (numeral n) = Fin (numeral n)"
  using round_double_int [of "numeral n"] by simp

text \<open>The roundings of the examples below.\<close>

lemma rd_1: "round_double (1 / 18014398509481984) = Fin (1 / 18014398509481984)"
  by (rule round_double_check [where L = "- 54" and m = 4503599627370496])
    (simp_all add: pow2_def round_half_even_def floor_numeral_div)

lemma rd_2: "round_double (900719925474099 / 18014398509481984) = Fin (900719925474099 / 18014398509481984)"
  by (rule round_double_check [where L = "- 5" and m = 7205759403792792])
    (simp_all add: pow2_def round_half_even_def floor_numeral_div)

lemma rd_3: "round_double (1 / 20) = Fin (3602879701896397 / 72057594037927936)"
  by (rule round_double_check [where L = "- 5" and m = 7205759403792794])
    (simp_all add: pow2_def round_half_even_def floor_numeral_div)

lemma rd_4: "round_double (3602879701896397 / 72057594037927936) = Fin (3602879701896397 / 72057594037927936)"
  by (rule round_double_check [where L = "- 5" and m = 7205759403792794])
    (simp_all add: pow2_def round_half_even_def floor_numeral_div)

lemma rd_5: "round_double (1 / 10) = Fin (3602879701896397 / 36028797018963968)"
  by (rule round_double_check [where L = "- 4" and m = 7205759403792794])
    (simp_all add: pow2_def round_half_even_def floor_numeral_div)

lemma rd_6: "round_double (3602879701896397 / 36028797018963968) = Fin (3602879701896397 / 36028797018963968)"
  by (rule round_double_check [where L = "- 4" and m = 7205759403792794])
    (simp_all add: pow2_def round_half_even_def floor_numeral_div)

lemma rd_7: "round_double (5404319552844595 / 36028797018963968) = Fin (5404319552844595 / 36028797018963968)"
  by (rule round_double_check [where L = "- 3" and m = 5404319552844595])
    (simp_all add: pow2_def round_half_even_def floor_numeral_div)

lemma rd_8: "round_double (10808639105689191 / 72057594037927936) = Fin (1351079888211149 / 9007199254740992)"
  by (rule round_double_check [where L = "- 3" and m = 5404319552844596])
    (simp_all add: pow2_def round_half_even_def floor_numeral_div)

lemma rd_9: "round_double (7205759403792793 / 36028797018963968) = Fin (7205759403792793 / 36028797018963968)"
  by (rule round_double_check [where L = "- 3" and m = 7205759403792793])
    (simp_all add: pow2_def round_half_even_def floor_numeral_div)

lemma rd_10: "round_double (14411518807585587 / 72057594037927936) = Fin (3602879701896397 / 18014398509481984)"
  by (rule round_double_check [where L = "- 3" and m = 7205759403792794])
    (simp_all add: pow2_def round_half_even_def floor_numeral_div)

lemma rd_11: "round_double (1 / 5) = Fin (3602879701896397 / 18014398509481984)"
  by (rule round_double_check [where L = "- 3" and m = 7205759403792794])
    (simp_all add: pow2_def round_half_even_def floor_numeral_div)

lemma rd_12: "round_double (3602879701896397 / 18014398509481984) = Fin (3602879701896397 / 18014398509481984)"
  by (rule round_double_check [where L = "- 3" and m = 7205759403792794])
    (simp_all add: pow2_def round_half_even_def floor_numeral_div)

lemma rd_13: "round_double (7205759403792795 / 36028797018963968) = Fin (7205759403792795 / 36028797018963968)"
  by (rule round_double_check [where L = "- 3" and m = 7205759403792795])
    (simp_all add: pow2_def round_half_even_def floor_numeral_div)

lemma rd_14: "round_double (1 / 4) = Fin (1 / 4)"
  by (rule round_double_check [where L = "- 2" and m = 4503599627370496])
    (simp_all add: pow2_def round_half_even_def floor_numeral_div)

lemma rd_15: "round_double (21617278211378381 / 72057594037927936) = Fin (5404319552844595 / 18014398509481984)"
  by (rule round_double_check [where L = "- 2" and m = 5404319552844595])
    (simp_all add: pow2_def round_half_even_def floor_numeral_div)

lemma rd_16: "round_double (10808639105689191 / 36028797018963968) = Fin (1351079888211149 / 4503599627370496)"
  by (rule round_double_check [where L = "- 2" and m = 5404319552844596])
    (simp_all add: pow2_def round_half_even_def floor_numeral_div)

lemma rd_17: "round_double (3) = Fin (3)"
  by (rule round_double_check [where L = "1" and m = 6755399441055744])
    (simp_all add: pow2_def round_half_even_def floor_numeral_div)

lemma rd_18: "round_double (9007199254740992) = Fin (9007199254740992)"
  by (rule round_double_check [where L = "53" and m = 4503599627370496])
    (simp_all add: pow2_def round_half_even_def floor_numeral_div)

lemma rd_19: "round_double (9007199254740995) = Fin (9007199254740996)"
  by (rule round_double_check [where L = "53" and m = 4503599627370498])
    (simp_all add: pow2_def round_half_even_def floor_numeral_div)

lemma rd_20: "round_double (9007199254740996) = Fin (9007199254740996)"
  by (rule round_double_check [where L = "53" and m = 4503599627370498])
    (simp_all add: pow2_def round_half_even_def floor_numeral_div)

lemmas rd_facts = rd_1 rd_2 rd_3 rd_4 rd_5 rd_6 rd_7 rd_8 rd_9 rd_10 rd_11 rd_12 rd_13 rd_14 rd_15 rd_16 rd_17 rd_18 rd_19 rd_20

section \<open>Stores of the examples\<close>

text \<open>
  Deposit 0.25, withdraw 0.1, deposit 0.05, withdraw 0.2: every request is answered 200,
  the last because the single-pass sum \<open>(0.25 - 0.1) + 0.05\<close> rounds to 0.2.
\<close>

lemma example_overdraft_reachable:
  "reachable
     \<lparr>users = [], transactions =
        [\<lparr>tx_id = ''a'', type = ''deposit'', amount = round_double (1 / 4), date = 10\<rparr>,
         \<lparr>tx_id = ''b'', type = ''withdrawal'', amount = round_double (1 / 10), date = 20\<rparr>,
         \<lparr>tx_id = ''c'', type = ''deposit'', amount = round_double (1 / 20), date = 30\<rparr>,
         \<lparr>tx_id = ''d'', type = ''withdrawal'', amount = round_double (2 / 10), date = 40\<rparr>]\<rparr>"
proof -
  have s1: "snd (post_deposit ''a'' 10 (JNumber (round_double (1 / 4)))
      empty_store) =
      \<lparr>users = [], transactions =
          [\<lparr>tx_id = ''a'', type = ''deposit'', amount = round_double (1 / 4), date = 10\<rparr>]\<rparr>"
    by (simp add: post_deposit_number post_withdraw_number empty_store_def
      js_le_def js_eq_def js_gt_def js_ge_def withdraw_balance_def balance_of_def match_type_def
      group_sum_def first_field_def or_zero_def js_sum_def signed_amount_def js_sub_def
      rd_facts round_double_minus round_double_zero round_double_numeral)
  have r1: "reachable
      \<lparr>users = [], transactions =
          [\<lparr>tx_id = ''a'', type = ''deposit'', amount = round_double (1 / 4), date = 10\<rparr>]\<rparr>"
    using reachable.deposit [OF reachable.init, of "''a''" 10 "JNumber (round_double (1 / 4))"] by (simp only: s1)
  have s2: "snd (post_withdraw ''b'' 20 (JNumber (round_double (1 / 10)))
      (\<lparr>users = [], transactions =
          [\<lparr>tx_id = ''a'', type = ''deposit'', amount = round_double (1 / 4), date = 10\<rparr>]\<rparr>)) =
      \<lparr>users = [], transactions =
          [\<lparr>tx_id = ''a'', type = ''deposit'', amount = round_double (1 / 4), date = 10\<rparr>,
           \<lparr>tx_id = ''b'', type = ''withdrawal'', amount = round_double (1 / 10), date = 20\<rparr>]\<rparr>"
    by (simp add: post_deposit_number post_withdraw_number empty_store_def
      js_le_def js_eq_def js_gt_def js_ge_def withdraw_balance_def balance_of_def match_type_def
      group_sum_def first_field_def or_zero_def js_sum_def signed_amount_def js_sub_def
      rd_facts round_double_minus round_double_zero round_double_numeral)
  have r2: "reachable
      \<lparr>users = [], transactions =
          [\<lparr>tx_id = ''a'', type = ''deposit'', amount = round_double (1 / 4), date = 10\<rparr>,
           \<lparr>tx_id = ''b'', type = ''withdrawal'', amount = round_double (1 / 10), date = 20\<rparr>]\<rparr>"
    using reachable.withdraw [OF r1, of "''b''" 20 "JNumber (round_double (1 / 10))"] by (simp only: s2)
  have s3: "snd (post_deposit ''c'' 30 (JNumber (round_double (1 / 20)))
      (\<lparr>users = [], transactions =
          [\<lparr>tx_id = ''a'', type = ''deposit'', amount = round_double (1 / 4), date = 10\<rparr>,
           \<lparr>tx_id = ''b'', type = ''withdrawal'', amount = round_double (1 / 10), date = 20\<rparr>]\<rparr>)) =
      \<lparr>users = [], transactions =
          [\<lparr>tx_id = ''a'', type = ''deposit'', amount = round_double (1 / 4), date = 10\<rparr>,
           \<lparr>tx_id = ''b'', type = ''withdrawal'', amount = round_double (1 / 10), date = 20\<rparr>,
           \<lparr>tx_id = ''c'', type = ''deposit'', amount = round_double (1 / 20), date = 30\<rparr>]\<rparr>"
    by (simp add: post_deposit_number post_withdraw_number empty_store_def
      js_le_def js_eq_def js_gt_def js_ge_def withdraw_balance_def balance_of_def match_type_def
      group_sum_def first_field_def or_zero_def js_sum_def signed_amount_def js_sub_def
      rd_facts round_double_minus round_double_zero round_double_numeral)
  have r3: "reachable
      \<lparr>users = [], transactions =
          [\<lparr>tx_id = ''a'', type = ''deposit'', amount = round_double (1 / 4), date = 10\<rparr>,
           \<lparr>tx_id = ''b'', type = ''withdrawal'', amount = round_double (1 / 10), date = 20\<rparr>,
           \<lparr>tx_id = ''c'', type = ''deposit'', amount = round_double (1 / 20), date = 30\<rparr>]\<rparr>"
    using reachable.deposit [OF r2, of "''c''" 30 "JNumber (round_double (1 / 20))"] by (simp only: s3)
  have s4: "snd (post_withdraw ''d'' 40 (JNumber (round_double (2 / 10)))
      (\<lparr>users = [], transactions =
          [\<lparr>tx_id = ''a'', type = ''deposit'', amount = round_double (1 / 4), date = 10\<rparr>,
           \<lparr>tx_id = ''b'', type = ''withdrawal'', amount = round_double (1 / 10), date = 20\<rparr>,
           \<lparr>tx_id = ''c'', type = ''deposit'', amount = round_double (1 / 20), date = 30\<rparr>]\<rparr>)) =
      \<lparr>users = [], transactions =
          [\<lparr>tx_id = ''a'', type = ''deposit'', amount = round_double (1 / 4), date = 10\<rparr>,
           \<lparr>tx_id = ''b'', type = ''withdrawal'', amount = round_double (1 / 10), date = 20\<rparr>,
           \<lparr>tx_id = ''c'', type = ''deposit'', amount = round_double (1 / 20), date = 30\<rparr>,
           \<lparr>tx_id = ''d'', type = ''withdrawal'', amount = round_double (2 / 10), date = 40\<rparr>]\<rparr>"
    by (simp add: post_deposit_number post_withdraw_number empty_store_def
      js_le_def js_eq_def js_gt_def js_ge_def withdraw_balance_def balance_of_def match_type_def
      group_sum_def first_field_def or_zero_def js_sum_def signed_amount_def js_sub_def
      rd_facts round_double_minus round_double_zero round_double_numeral)
  have r4: "reachable
      \<lparr>users = [], transactions =
          [\<lparr>tx_id = ''a'', type = ''deposit'', amount = round_double (1 / 4), date = 10\<rparr>,
           \<lparr>tx_id = ''b'', type = ''withdrawal'', amount = round_double (1 / 10), date = 20\<rparr>,
           \<lparr>tx_id = ''c'', type = ''deposit'', amount = round_double (1 / 20), date = 30\<rparr>,
           \<lparr>tx_id = ''d'', type = ''withdrawal'', amount = round_double (2 / 10), date = 40\<rparr>]\<rparr>"
    using reachable.withdraw [OF r3, of "''d''" 40 "JNumber (round_double (2 / 10))"] by (simp only: s4)
  from r4 show ?thesis .
qed

section \<open>Properties of the routes\<close>

text \<open>
  Two deposits, of \<open>2 ^ 53\<close> and of 3: \<open>GET /balance\<close> answers 9007199254740996, the
  double next to the sum 9007199254740995 of the two amounts.
\<close>

theorem balance_is_rounded:
  "snd (post_deposit ''b'' 20 (JNumber (Fin 3))
      (snd (post_deposit ''a'' 10 (JNumber (Fin 9007199254740992)) empty_store))) =
     \<lparr>users = [], transactions =
        [\<lparr>tx_id = ''a'', type = ''deposit'', amount = Fin 9007199254740992, date = 10\<rparr>,
         \<lparr>tx_id = ''b'', type = ''deposit'', amount = Fin 3, date = 20\<rparr>]\<rparr>
   \<and> get_balance
       \<lparr>users = [], transactions =
          [\<lparr>tx_id = ''a'', type = ''deposit'', amount = Fin 9007199254740992, date = 10\<rparr>,
           \<lparr>tx_id = ''b'', type = ''deposit'', amount = Fin 3, date = 20\<rparr>]\<rparr> =
     Response 200 (Balance (Fin 9007199254740996))
   \<and> spec_balance
       [\<lparr>tx_id = ''a'', type = ''deposit'', amount = Fin 9007199254740992, date = 10\<rparr>,
        \<lparr>tx_id = ''b'', type = ''deposit'', amount = Fin 3, date = 20\<rparr>] = 9007199254740995"
  by (simp add: get_balance_def spec_balance_def exact_total_def finite_value_def
      post_deposit_number post_withdraw_number empty_store_def
      js_le_def js_eq_def js_gt_def js_ge_def withdraw_balance_def balance_of_def match_type_def
      group_sum_def first_field_def or_zero_def js_sum_def signed_amount_def js_sub_def
      rd_facts round_double_minus round_double_zero round_double_numeral)

text \<open>
  C1, as the code has it. \<open>GET /balance\<close> answers 200 with the rounded difference of
  the two \<open>$sum\<close> totals, each a sum of doubles (a total that is \<open>NaN\<close> counts as 0). This
  is the sum of the amounts of the deposits minus the sum of the amounts of the
  withdrawals whenever the amounts are integers whose absolute values add up to less
  than \<open>2 ^ 53\<close>. On a store without transactions the balance is 0.
\<close>

theorem get_balance_sums:
  "get_balance s =
     Response 200 (Balance
       (js_sub (not_nan (js_sum (map amount (match_type ''deposit'' (transactions s)))))
               (not_nan (js_sum (map amount (match_type ''withdrawal'' (transactions s)))))))
   \<and> (exact_amounts (transactions s)
      \<longrightarrow> get_balance s = Response 200 (Balance (Fin (spec_balance (transactions s)))))
   \<and> get_balance (s\<lparr>transactions := []\<rparr>) = Response 200 (Balance (Fin 0))"
  by (simp add: get_balance_def balance_of_sums [symmetric] balance_of_exact balance_of_Nil)

text \<open>A deposit of 100 and a withdrawal of 30: the balance is 70.\<close>

theorem get_balance_sums_witness:
  "exact_amounts
     [\<lparr>tx_id = ''a'', type = ''deposit'', amount = Fin 100, date = 10\<rparr>,
     \<lparr>tx_id = ''b'', type = ''withdrawal'', amount = Fin 30, date = 20\<rparr>]
   \<and> get_balance
       \<lparr>users = [], transactions =
          [\<lparr>tx_id = ''a'', type = ''deposit'', amount = Fin 100, date = 10\<rparr>,
           \<lparr>tx_id = ''b'', type = ''withdrawal'', amount = Fin 30, date = 20\<rparr>]\<rparr> =
     Response 200 (Balance (Fin 70))"
proof -
  have h: "exact_amounts (transactions
       \<lparr>users = [], transactions =
          [\<lparr>tx_id = ''a'', type = ''deposit'', amount = Fin 100, date = 10\<rparr>,
           \<lparr>tx_id = ''b'', type = ''withdrawal'', amount = Fin 30, date = 20\<rparr>]\<rparr>)"
    by (simp add: exact_amounts_def integral_def total_magnitude_def magnitude_def
        finite_value_def)
  from get_balance_sums [of
       "\<lparr>users = [], transactions =
          [\<lparr>tx_id = ''a'', type = ''deposit'', amount = Fin 100, date = 10\<rparr>,
           \<lparr>tx_id = ''b'', type = ''withdrawal'', amount = Fin 30, date = 20\<rparr>]\<rparr>",
       THEN conjunct2, THEN conjunct1, THEN mp, OF h] h
  show ?thesis
    by (simp add: spec_balance_def exact_total_def finite_value_def)
qed

text \<open>
  The body \<open>{"amount": 1e999}\<close> parses to \<open>Infinity\<close>, which is not a positive finite
  number: \<open>POST /deposit\<close> answers 200 and persists it, and \<open>POST /withdraw\<close> then
  answers 200 to the same body and persists a withdrawal.
\<close>

theorem infinite_amount_admitted:
  "\<not> spec_positive_finite (JNumber PInf)
   \<and> post_deposit ''a'' 10 (JNumber PInf) empty_store =
       (Response 200 (MessageNum ''Deposited $'' PInf),
        \<lparr>users = [], transactions =
           [\<lparr>tx_id = ''a'', type = ''deposit'', amount = PInf, date = 10\<rparr>]\<rparr>)
   \<and> post_withdraw ''b'' 20 (JNumber PInf)
        \<lparr>users = [], transactions =
           [\<lparr>tx_id = ''a'', type = ''deposit'', amount = PInf, date = 10\<rparr>]\<rparr> =
       (Response 200 (MessageNum ''Withdrew $'' PInf),
        \<lparr>users = [], transactions =
           [\<lparr>tx_id = ''a'', type = ''deposit'', amount = PInf, date = 10\<rparr>,
            \<lparr>tx_id = ''b'', type = ''withdrawal'', amount = PInf, date = 20\<rparr>]\<rparr>)"
  by (simp add: spec_positive_finite_def post_deposit_number post_withdraw_number
      empty_store_def js_le_def js_eq_def js_gt_def withdraw_balance_def group_sum_def
      first_field_def or_zero_def js_sum_def signed_amount_def)

text \<open>
  C2, as the code has it. \<open>POST /deposit\<close> and \<open>POST /withdraw\<close> answer 400 with their
  invalid-amount error exactly when the amount is not of type number or is \<open>\<le> 0\<close>, that
  is, exactly when it is not a positive finite number and is neither \<open>Infinity\<close> nor
  \<open>NaN\<close>; a request so rejected leaves the store as it was.
\<close>

theorem amount_validation:
  "((fst (post_deposit oid now v s) = Response 400 (Error ''Invalid deposit amount''))
      \<longleftrightarrow> invalid_amount v)
   \<and> ((fst (post_withdraw oid now v s) = Response 400 (Error ''Invalid withdrawal amount''))
      \<longleftrightarrow> invalid_amount v)
   \<and> (invalid_amount v
      \<longleftrightarrow> \<not> spec_positive_finite v \<and> v \<noteq> JNumber PInf \<and> v \<noteq> JNumber NaN)
   \<and> (invalid_amount v
      \<longrightarrow> snd (post_deposit oid now v s) = s \<and> snd (post_withdraw oid now v s) = s)"
proof -
  have inv: "invalid_amount v
      \<longleftrightarrow> \<not> spec_positive_finite v \<and> v \<noteq> JNumber PInf \<and> v \<noteq> JNumber NaN"
  proof (cases "typeof v = ''number''")
    case False
    then show ?thesis
      by (auto simp add: invalid_amount_def positive_finite_cases)
  next
    case True
    then obtain n where v: "v = JNumber n" by (auto simp add: typeof_number)
    show ?thesis
      unfolding v by (cases n) (auto simp add: invalid_amount_def positive_finite_cases js_le_zero_cases)
  qed
  have unchanged: "snd (post_deposit oid now v s) = s \<and> snd (post_withdraw oid now v s) = s"
    if "invalid_amount v"
  proof (cases "typeof v = ''number''")
    case False
    then show ?thesis
      by (simp add: post_deposit_other post_withdraw_other)
  next
    case True
    then obtain n where v: "v = JNumber n" by (auto simp add: typeof_number)
    from that show ?thesis
      unfolding v by (simp add: invalid_amount_def post_deposit_number post_withdraw_number)
  qed
  from inv unchanged show ?thesis
    by (simp add: deposit_invalid_iff withdraw_invalid_iff)
qed

text \<open>The amount \<open>-5\<close> is refused by both routes.\<close>

theorem amount_validation_witness:
  "invalid_amount (JNumber (Fin (- 5)))
   \<and> post_deposit ''a'' 10 (JNumber (Fin (- 5))) empty_store =
       (Response 400 (Error ''Invalid deposit amount''), empty_store)
   \<and> post_withdraw ''a'' 10 (JNumber (Fin (- 5))) empty_store =
       (Response 400 (Error ''Invalid withdrawal amount''), empty_store)"
proof -
  have h: "invalid_amount (JNumber (Fin (- 5)))"
    by (simp add: invalid_amount_def js_le_def)
  from amount_validation [of "''a''" 10 "JNumber (Fin (- 5))" empty_store] h show ?thesis
    by (simp add: prod_eq_iff)
qed

text \<open>
  C3. In every store reached from the empty one by requests to \<open>POST /deposit\<close>,
  \<open>POST /withdraw\<close> and \<open>DELETE /transactions\<close>, every persisted transaction has an
  amount \<open>> 0\<close>.
\<close>

theorem persisted_amounts_positive:
  assumes "reachable s"
  shows "\<forall>t \<in> set (transactions s). js_gt (amount t) (Fin 0)"
  using reachable_invariant [OF assms] by (simp add: positive_amounts_def list_all_iff)

text \<open>After a deposit of 100 the one persisted amount is positive.\<close>

theorem persisted_amounts_positive_witness:
  "reachable (snd (post_deposit ''a'' 10 (JNumber (Fin 100)) empty_store))
   \<and> transactions (snd (post_deposit ''a'' 10 (JNumber (Fin 100)) empty_store)) =
       [\<lparr>tx_id = ''a'', type = ''deposit'', amount = Fin 100, date = 10\<rparr>]
   \<and> js_gt (Fin 100) (Fin 0)"
proof -
  have r: "reachable (snd (post_deposit ''a'' 10 (JNumber (Fin 100)) empty_store))"
    by (rule reachable.deposit [OF reachable.init])
  have t: "transactions (snd (post_deposit ''a'' 10 (JNumber (Fin 100)) empty_store)) =
       [\<lparr>tx_id = ''a'', type = ''deposit'', amount = Fin 100, date = 10\<rparr>]"
    by (simp add: post_deposit_number empty_store_def js_le_def js_eq_def)
  from persisted_amounts_positive [OF r] r t show ?thesis
    by simp
qed

text \<open>
  After deposit 0.25, withdraw 0.1, deposit 0.05 the balance of \<open>GET /balance\<close> is
  0.19999999999999998 and the exact sum of the amounts is smaller than 0.2 as well, yet
  a withdrawal of 0.2 is answered 200 and persisted.
\<close>

theorem withdraw_beyond_balance:
  "reachable
     \<lparr>users = [], transactions =
        [\<lparr>tx_id = ''a'', type = ''deposit'', amount = round_double (1 / 4), date = 10\<rparr>,
         \<lparr>tx_id = ''b'', type = ''withdrawal'', amount = round_double (1 / 10), date = 20\<rparr>,
         \<lparr>tx_id = ''c'', type = ''deposit'', amount = round_double (1 / 20), date = 30\<rparr>]\<rparr>
   \<and> balance_of
       [\<lparr>tx_id = ''a'', type = ''deposit'', amount = round_double (1 / 4), date = 10\<rparr>,
        \<lparr>tx_id = ''b'', type = ''withdrawal'', amount = round_double (1 / 10), date = 20\<rparr>,
        \<lparr>tx_id = ''c'', type = ''deposit'', amount = round_double (1 / 20), date = 30\<rparr>] =
     Fin (7205759403792793 / 36028797018963968)
   \<and> js_gt (round_double (2 / 10))
       (balance_of
         [\<lparr>tx_id = ''a'', type = ''deposit'', amount = round_double (1 / 4), date = 10\<rparr>,
          \<lparr>tx_id = ''b'', type = ''withdrawal'', amount = round_double (1 / 10), date = 20\<rparr>,
          \<lparr>tx_id = ''c'', type = ''deposit'', amount = round_double (1 / 20), date = 30\<rparr>])
   \<and> js_gt (round_double (2 / 10))
       (Fin (spec_balance
         [\<lparr>tx_id = ''a'', type = ''deposit'', amount = round_double (1 / 4), date = 10\<rparr>,
          \<lparr>tx_id = ''b'', type = ''withdrawal'', amount = round_double (1 / 10), date = 20\<rparr>,
          \<lparr>tx_id = ''c'', type = ''deposit'', amount = round_double (1 / 20), date = 30\<rparr>]))
   \<and> post_withdraw ''d'' 40 (JNumber (round_double (2 / 10)))
       \<lparr>users = [], transactions =
          [\<lparr>tx_id = ''a'', type = ''deposit'', amount = round_double (1 / 4), date = 10\<rparr>,
           \<lparr>tx_id = ''b'', type = ''withdrawal'', amount = round_double (1 / 10), date = 20\<rparr>,
           \<lparr>tx_id = ''c'', type = ''deposit'', amount = round_double (1 / 20), date = 30\<rparr>]\<rparr> =
     (Response 200 (MessageNum ''Withdrew $'' (round_double (2 / 10))),
      \<lparr>users = [], transactions =
          [\<lparr>tx_id = ''a'', type = ''deposit'', amount = round_double (1 / 4), date = 10\<rparr>,
           \<lparr>tx_id = ''b'', type = ''withdrawal'', amount = round_double (1 / 10), date = 20\<rparr>,
           \<lparr>tx_id = ''c'', type = ''deposit'', amount = round_double (1 / 20), date = 30\<rparr>,
           \<lparr>tx_id = ''d'', type = ''withdrawal'', amount = round_double (2 / 10), date = 40\<rparr>]\<rparr>)"
proof -
  have "reachable
     \<lparr>users = [], transactions =
        [\<lparr>tx_id = ''a'', type = ''deposit'', amount = round_double (1 / 4), date = 10\<rparr>,
         \<lparr>tx_id = ''b'', type = ''withdrawal'', amount = round_double (1 / 10), date = 20\<rparr>,
         \<lparr>tx_id = ''c'', type = ''deposit'', amount = round_double (1 / 20), date = 30\<rparr>]\<rparr>"
    using reachable.deposit [OF reachable.withdraw [OF reachable.deposit [OF reachable.init,
      of "''a''" 10 "JNumber (round_double (1 / 4))"],
      of "''b''" 20 "JNumber (round_double (1 / 10))"],
      of "''c''" 30 "JNumber (round_double (1 / 20))"]
    by (simp add: post_deposit_number post_withdraw_number empty_store_def
      js_le_def js_eq_def js_gt_def js_ge_def withdraw_balance_def balance_of_def match_type_def
      group_sum_def first_field_def or_zero_def js_sum_def signed_amount_def js_sub_def
      rd_facts round_double_minus round_double_zero round_double_numeral)
  then show ?thesis
    by (simp add: spec_balance_def exact_total_def finite_value_def
      post_deposit_number post_withdraw_number empty_store_def
      js_le_def js_eq_def js_gt_def js_ge_def withdraw_balance_def balance_of_def match_type_def
      group_sum_def first_field_def or_zero_def js_sum_def signed_amount_def js_sub_def
      rd_facts round_double_minus round_double_zero round_double_numeral)
qed

text \<open>
  C4, as the code has it. On every store, a withdrawal of a positive number that is
  greater than the balance \<open>POST /withdraw\<close> itself computes, the single-pass sum of
  doubles, is answered 400 with \<open>Insufficient funds\<close>, and the store, so the transactions
  and their count, is left as it was. Where the kinds are those of the schema and the
  amounts are integers whose absolute values add up to less than \<open>2 ^ 53\<close>, that balance
  is the sum of the deposits minus the sum of the withdrawals and the balance of
  \<open>GET /balance\<close>, and every amount greater than it is refused.
\<close>

theorem withdraw_insufficient:
  "(js_gt n (Fin 0) \<and> js_gt n (withdraw_balance (transactions s))
      \<longrightarrow> post_withdraw oid now (JNumber n) s = (Response 400 (Error ''Insufficient funds''), s))
   \<and> (js_gt n (Fin 0) \<and> known_kinds (transactions s) \<and> exact_amounts (transactions s)
       \<and> js_gt n (Fin (spec_balance (transactions s)))
      \<longrightarrow> post_withdraw oid now (JNumber n) s = (Response 400 (Error ''Insufficient funds''), s)
        \<and> balance_of (transactions s) = Fin (spec_balance (transactions s)))"
  by (simp add: post_withdraw_number positive_not_le withdraw_balance_exact balance_of_exact)

text \<open>With a balance of 100, a withdrawal of 150 is refused.\<close>

theorem withdraw_insufficient_witness:
  "js_gt (Fin 150) (Fin 0)
   \<and> known_kinds [\<lparr>tx_id = ''a'', type = ''deposit'', amount = Fin 100, date = 10\<rparr>]
   \<and> exact_amounts [\<lparr>tx_id = ''a'', type = ''deposit'', amount = Fin 100, date = 10\<rparr>]
   \<and> spec_balance [\<lparr>tx_id = ''a'', type = ''deposit'', amount = Fin 100, date = 10\<rparr>] = 100
   \<and> post_withdraw ''b'' 20 (JNumber (Fin 150))
        \<lparr>users = [], transactions =
          [\<lparr>tx_id = ''a'', type = ''deposit'', amount = Fin 100, date = 10\<rparr>]\<rparr> =
       (Response 400 (Error ''Insufficient funds''),
        \<lparr>users = [], transactions =
          [\<lparr>tx_id = ''a'', type = ''deposit'', amount = Fin 100, date = 10\<rparr>]\<rparr>)"
proof -
  have k: "known_kinds [\<lparr>tx_id = ''a'', type = ''deposit'', amount = Fin 100, date = 10\<rparr>]"
    by (simp add: known_kinds_def)
  have e: "exact_amounts [\<lparr>tx_id = ''a'', type = ''deposit'', amount = Fin 100, date = 10\<rparr>]"
    by (simp add: exact_amounts_def integral_def total_magnitude_def magnitude_def
        finite_value_def)
  have b: "spec_balance [\<lparr>tx_id = ''a'', type = ''deposit'', amount = Fin 100, date = 10\<rparr>] = 100"
    by (simp add: spec_balance_def exact_total_def finite_value_def)
  have p: "js_gt (Fin 150) (Fin 0)"
    by (simp add: js_gt_def)
  from withdraw_insufficient [of "Fin 150"
        "\<lparr>users = [], transactions =
          [\<lparr>tx_id = ''a'', type = ''deposit'', amount = Fin 100, date = 10\<rparr>]\<rparr>" "''b''" 20] k e b p
  show ?thesis
    by (simp add: js_gt_def)
qed

text \<open>
  After deposit 0.2 and withdraw 0.1 the balance is 0.1. A withdrawal of 0.05 is
  answered 200 and persisted, and the balance of \<open>GET /balance\<close> is then
  0.04999999999999999, where 0.1 - 0.05 is 0.05.
\<close>

theorem balance_decrease_inexact:
  "reachable
     \<lparr>users = [], transactions =
        [\<lparr>tx_id = ''a'', type = ''deposit'', amount = round_double (2 / 10), date = 10\<rparr>,
         \<lparr>tx_id = ''b'', type = ''withdrawal'', amount = round_double (1 / 10), date = 20\<rparr>]\<rparr>
   \<and> post_withdraw ''c'' 30 (JNumber (round_double (1 / 20)))
       \<lparr>users = [], transactions =
          [\<lparr>tx_id = ''a'', type = ''deposit'', amount = round_double (2 / 10), date = 10\<rparr>,
           \<lparr>tx_id = ''b'', type = ''withdrawal'', amount = round_double (1 / 10), date = 20\<rparr>]\<rparr> =
     (Response 200 (MessageNum ''Withdrew $'' (round_double (1 / 20))),
      \<lparr>users = [], transactions =
          [\<lparr>tx_id = ''a'', type = ''deposit'', amount = round_double (2 / 10), date = 10\<rparr>,
           \<lparr>tx_id = ''b'', type = ''withdrawal'', amount = round_double (1 / 10), date = 20\<rparr>,
           \<lparr>tx_id = ''c'', type = ''withdrawal'', amount = round_double (1 / 20), date = 30\<rparr>]\<rparr>)
   \<and> balance_of
       [\<lparr>tx_id = ''a'', type = ''deposit'', amount = round_double (2 / 10), date = 10\<rparr>,
        \<lparr>tx_id = ''b'', type = ''withdrawal'', amount = round_double (1 / 10), date = 20\<rparr>] = round_double (1 / 10)
   \<and> js_sub (round_double (1 / 10)) (round_double (1 / 20)) = round_double (1 / 20)
   \<and> finite_value (round_double (1 / 10)) - finite_value (round_double (1 / 20))
       = finite_value (round_double (1 / 20))
   \<and> balance_of
       [\<lparr>tx_id = ''a'', type = ''deposit'', amount = round_double (2 / 10), date = 10\<rparr>,
        \<lparr>tx_id = ''b'', type = ''withdrawal'', amount = round_double (1 / 10), date = 20\<rparr>,
        \<lparr>tx_id = ''c'', type = ''withdrawal'', amount = round_double (1 / 20), date = 30\<rparr>] =
     Fin (900719925474099 / 18014398509481984)
   \<and> js_lt (Fin (900719925474099 / 18014398509481984)) (round_double (1 / 20))"
proof -
  have "reachable
     \<lparr>users = [], transactions =
        [\<lparr>tx_id = ''a'', type = ''deposit'', amount = round_double (2 / 10), date = 10\<rparr>,
         \<lparr>tx_id = ''b'', type = ''withdrawal'', amount = round_double (1 / 10), date = 20\<rparr>]\<rparr>"
    using reachable.withdraw [OF reachable.deposit [OF reachable.init,
      of "''a''" 10 "JNumber (round_double (2 / 10))"],
      of "''b''" 20 "JNumber (round_double (1 / 10))"]
    by (simp add: post_deposit_number post_withdraw_number empty_store_def
      js_le_def js_eq_def js_gt_def js_ge_def withdraw_balance_def balance_of_def match_type_def
      group_sum_def first_field_def or_zero_def js_sum_def signed_amount_def js_sub_def
      rd_facts round_double_minus round_double_zero round_double_numeral)
  then show ?thesis
    by (simp add: finite_value_def
      post_deposit_number post_withdraw_number empty_store_def
      js_le_def js_eq_def js_gt_def js_ge_def withdraw_balance_def balance_of_def match_type_def
      group_sum_def first_field_def or_zero_def js_sum_def signed_amount_def js_sub_def
      rd_facts round_double_minus round_double_zero round_double_numeral)
qed

text \<open>
  C5, as the code has it. On every store, a withdrawal of a positive number that is at
  most the balance \<open>POST /withdraw\<close> computes is answered 200 and persists exactly one
  transaction, of kind withdrawal and of that amount. Where the kinds are those of the
  schema and the amounts, the new one included, are integers whose absolute values add
  up to less than \<open>2 ^ 53\<close>, an amount that is at most the balance of \<open>GET /balance\<close>
  is so admitted, and the balance of \<open>GET /balance\<close> afterwards is the balance before
  minus that amount, exactly.
\<close>

theorem withdraw_admitted:
  "(js_gt n (Fin 0) \<and> js_le n (withdraw_balance (transactions s))
      \<longrightarrow> post_withdraw oid now (JNumber n) s =
           (Response 200 (MessageNum ''Withdrew $'' n),
            s\<lparr>transactions := transactions s
                  @ [\<lparr>tx_id = oid, type = ''withdrawal'', amount = n, date = now\<rparr>]\<rparr>))
   \<and> (js_gt n (Fin 0) \<and> known_kinds (transactions s)
       \<and> exact_amounts (transactions s
             @ [\<lparr>tx_id = oid, type = ''withdrawal'', amount = n, date = now\<rparr>])
       \<and> js_le n (balance_of (transactions s))
      \<longrightarrow> post_withdraw oid now (JNumber n) s =
           (Response 200 (MessageNum ''Withdrew $'' n),
            s\<lparr>transactions := transactions s
                  @ [\<lparr>tx_id = oid, type = ''withdrawal'', amount = n, date = now\<rparr>]\<rparr>)
        \<and> balance_of (transactions (snd (post_withdraw oid now (JNumber n) s)))
            = js_sub (balance_of (transactions s)) n
        \<and> balance_of (transactions (snd (post_withdraw oid now (JNumber n) s)))
            = Fin (finite_value (balance_of (transactions s)) - finite_value n))"
proof -
  let ?new = "\<lparr>tx_id = oid, type = ''withdrawal'', amount = n, date = now\<rparr>"
  let ?s' = "s\<lparr>transactions := transactions s @ [?new]\<rparr>"
  have admit: "post_withdraw oid now (JNumber n) s = (Response 200 (MessageNum ''Withdrew $'' n), ?s')"
    if "js_gt n (Fin 0)" and "js_le n (withdraw_balance (transactions s))"
  proof -
    from that(1) have "\<not> js_le n (Fin 0)" "n \<noteq> NaN"
      by (simp_all add: positive_not_le)
    moreover from that(2) have "\<not> js_gt n (withdraw_balance (transactions s))"
      by (rule js_le_not_gt)
    ultimately show ?thesis
      by (simp add: post_withdraw_number)
  qed
  have exact: "post_withdraw oid now (JNumber n) s = (Response 200 (MessageNum ''Withdrew $'' n), ?s')
      \<and> balance_of (transactions (snd (post_withdraw oid now (JNumber n) s)))
          = js_sub (balance_of (transactions s)) n
      \<and> balance_of (transactions (snd (post_withdraw oid now (JNumber n) s)))
          = Fin (finite_value (balance_of (transactions s)) - finite_value n)"
    if pos: "js_gt n (Fin 0)" and kinds: "known_kinds (transactions s)"
      and ex: "exact_amounts (transactions s @ [?new])"
      and le: "js_le n (balance_of (transactions s))"
  proof -
    from exact_amounts_snoc [OF ex] have ex0: "exact_amounts (transactions s)"
      and i: "integral n" by simp_all
    from i obtain k where n: "n = Fin (of_int k)"
      by (auto simp add: integral_cases)
    have b0: "balance_of (transactions s) = Fin (spec_balance (transactions s))"
      using ex0 by (rule balance_of_exact)
    have w0: "withdraw_balance (transactions s) = Fin (spec_balance (transactions s))"
      using ex0 kinds by (rule withdraw_balance_exact)
    from le have "js_le n (withdraw_balance (transactions s))"
      by (simp add: b0 w0)
    with pos have step: "post_withdraw oid now (JNumber n) s
        = (Response 200 (MessageNum ''Withdrew $'' n), ?s')"
      by (rule admit)
    have b1: "balance_of (transactions s @ [?new])
        = Fin (spec_balance (transactions s) - finite_value n)"
      using balance_of_exact [OF ex] by (simp add: spec_balance_withdrawal)
    from exact_total_integer [OF ex0] obtain d w where
      "exact_total ''deposit'' (transactions s) = of_int d"
      "exact_total ''withdrawal'' (transactions s) = of_int w"
      by metis
    then have "spec_balance (transactions s) - finite_value n = of_int (d - w - k)"
      by (simp add: spec_balance_def n finite_value_def)
    then have int: "of_int \<lfloor>spec_balance (transactions s) - finite_value n\<rfloor>
        = spec_balance (transactions s) - finite_value n"
      by (simp only: floor_of_int)
    have "\<bar>spec_balance (transactions s @ [?new])\<bar> < 2 ^ 53"
    proof -
      from ex have "total_magnitude (transactions s @ [?new]) < 2 ^ 53"
        by (simp add: exact_amounts_def)
      with two_totals_le [of "transactions s @ [?new]"] show ?thesis
        unfolding spec_balance_def by linarith
    qed
    then have "\<bar>spec_balance (transactions s) - finite_value n\<bar> < 2 ^ 53"
      by (simp add: spec_balance_withdrawal)
    with int have "round_double (spec_balance (transactions s) - finite_value n)
        = Fin (spec_balance (transactions s) - finite_value n)"
      by (rule round_double_integer)
    then have sub: "js_sub (balance_of (transactions s)) n
        = Fin (spec_balance (transactions s) - finite_value n)"
      by (simp add: b0 n js_sub_def finite_value_def)
    from step b1 sub show ?thesis
      by (simp add: b0 finite_value_def)
  qed
  from admit exact show ?thesis by blast
qed

text \<open>With a balance of 100, a withdrawal of 30 is persisted and leaves 70.\<close>

theorem withdraw_admitted_witness:
  "js_gt (Fin 30) (Fin 0)
   \<and> known_kinds [\<lparr>tx_id = ''a'', type = ''deposit'', amount = Fin 100, date = 10\<rparr>]
   \<and> exact_amounts
       [\<lparr>tx_id = ''a'', type = ''deposit'', amount = Fin 100, date = 10\<rparr>,
        \<lparr>tx_id = ''b'', type = ''withdrawal'', amount = Fin 30, date = 20\<rparr>]
   \<and> balance_of [\<lparr>tx_id = ''a'', type = ''deposit'', amount = Fin 100, date = 10\<rparr>] = Fin 100
   \<and> post_withdraw ''b'' 20 (JNumber (Fin 30))
        \<lparr>users = [], transactions =
          [\<lparr>tx_id = ''a'', type = ''deposit'', amount = Fin 100, date = 10\<rparr>]\<rparr> =
       (Response 200 (MessageNum ''Withdrew $'' (Fin 30)),
        \<lparr>users = [], transactions =
          [\<lparr>tx_id = ''a'', type = ''deposit'', amount = Fin 100, date = 10\<rparr>,
           \<lparr>tx_id = ''b'', type = ''withdrawal'', amount = Fin 30, date = 20\<rparr>]\<rparr>)
   \<and> balance_of
       [\<lparr>tx_id = ''a'', type = ''deposit'', amount = Fin 100, date = 10\<rparr>,
        \<lparr>tx_id = ''b'', type = ''withdrawal'', amount = Fin 30, date = 20\<rparr>] = Fin 70"
proof -
  have p: "js_gt (Fin 30) (Fin 0)"
    by (simp add: js_gt_def)
  have k: "known_kinds [\<lparr>tx_id = ''a'', type = ''deposit'', amount = Fin 100, date = 10\<rparr>]"
    by (simp add: known_kinds_def)
  have e: "exact_amounts
       [\<lparr>tx_id = ''a'', type = ''deposit'', amount = Fin 100, date = 10\<rparr>,
        \<lparr>tx_id = ''b'', type = ''withdrawal'', amount = Fin 30, date = 20\<rparr>]"
    by (simp add: exact_amounts_def integral_def total_magnitude_def magnitude_def
        finite_value_def)
  have b: "balance_of [\<lparr>tx_id = ''a'', type = ''deposit'', amount = Fin 100, date = 10\<rparr>] = Fin 100"
    by (simp add: balance_of_def match_type_def group_sum_def first_field_def or_zero_def
        js_sum_def js_sub_def round_double_numeral round_double_zero)
  have l: "js_le (Fin 30) (Fin 100)"
    by (simp add: js_le_def)
  have hyp: "js_gt (Fin 30) (Fin 0)
      \<and> known_kinds (transactions
        \<lparr>users = [], transactions =
          [\<lparr>tx_id = ''a'', type = ''deposit'', amount = Fin 100, date = 10\<rparr>]\<rparr>)
      \<and> exact_amounts (transactions
        \<lparr>users = [], transactions =
          [\<lparr>tx_id = ''a'', type = ''deposit'', amount = Fin 100, date = 10\<rparr>]\<rparr>
          @ [\<lparr>tx_id = ''b'', type = ''withdrawal'', amount = Fin 30, date = 20\<rparr>])
      \<and> js_le (Fin 30) (balance_of (transactions
        \<lparr>users = [], transactions =
          [\<lparr>tx_id = ''a'', type = ''deposit'', amount = Fin 100, date = 10\<rparr>]\<rparr>))"
    using p k e b l by simp
  note w = withdraw_admitted [of "Fin 30"
        "\<lparr>users = [], transactions =
          [\<lparr>tx_id = ''a'', type = ''deposit'', amount = Fin 100, date = 10\<rparr>]\<rparr>" "''b''" 20,
        THEN conjunct2, THEN mp, OF hyp]
  have step: "post_withdraw ''b'' 20 (JNumber (Fin 30))
        \<lparr>users = [], transactions =
          [\<lparr>tx_id = ''a'', type = ''deposit'', amount = Fin 100, date = 10\<rparr>]\<rparr> =
       (Response 200 (MessageNum ''Withdrew $'' (Fin 30)),
        \<lparr>users = [], transactions =
          [\<lparr>tx_id = ''a'', type = ''deposit'', amount = Fin 100, date = 10\<rparr>,
           \<lparr>tx_id = ''b'', type = ''withdrawal'', amount = Fin 30, date = 20\<rparr>]\<rparr>)"
    using w [THEN conjunct1] by simp
  have a: "balance_of
       [\<lparr>tx_id = ''a'', type = ''deposit'', amount = Fin 100, date = 10\<rparr>,
        \<lparr>tx_id = ''b'', type = ''withdrawal'', amount = Fin 30, date = 20\<rparr>] = Fin 70"
    using w [THEN conjunct2, THEN conjunct2] unfolding step by (simp add: b finite_value_def)
  from p k e b step a show ?thesis
    by simp
qed

text \<open>
  After deposit 0.1, withdraw 0.1, deposit 0.2, all of the schema's kinds,
  \<open>POST /withdraw\<close> computes \<open>(0.1 - 0.1) + 0.2\<close>, which is 0.2, and \<open>GET /balance\<close>
  computes \<open>(0.1 + 0.2) - 0.1\<close>, which is 0.20000000000000004.
\<close>

theorem balances_differ:
  "reachable
     \<lparr>users = [], transactions =
        [\<lparr>tx_id = ''a'', type = ''deposit'', amount = round_double (1 / 10), date = 10\<rparr>,
         \<lparr>tx_id = ''b'', type = ''withdrawal'', amount = round_double (1 / 10), date = 20\<rparr>,
         \<lparr>tx_id = ''c'', type = ''deposit'', amount = round_double (2 / 10), date = 30\<rparr>]\<rparr>
   \<and> known_kinds
       [\<lparr>tx_id = ''a'', type = ''deposit'', amount = round_double (1 / 10), date = 10\<rparr>,
        \<lparr>tx_id = ''b'', type = ''withdrawal'', amount = round_double (1 / 10), date = 20\<rparr>,
        \<lparr>tx_id = ''c'', type = ''deposit'', amount = round_double (2 / 10), date = 30\<rparr>]
   \<and> withdraw_balance
       [\<lparr>tx_id = ''a'', type = ''deposit'', amount = round_double (1 / 10), date = 10\<rparr>,
        \<lparr>tx_id = ''b'', type = ''withdrawal'', amount = round_double (1 / 10), date = 20\<rparr>,
        \<lparr>tx_id = ''c'', type = ''deposit'', amount = round_double (2 / 10), date = 30\<rparr>] = round_double (2 / 10)
   \<and> balance_of
       [\<lparr>tx_id = ''a'', type = ''deposit'', amount = round_double (1 / 10), date = 10\<rparr>,
        \<lparr>tx_id = ''b'', type = ''withdrawal'', amount = round_double (1 / 10), date = 20\<rparr>,
        \<lparr>tx_id = ''c'', type = ''deposit'', amount = round_double (2 / 10), date = 30\<rparr>] =
     Fin (7205759403792795 / 36028797018963968)
   \<and> js_lt (round_double (2 / 10)) (Fin (7205759403792795 / 36028797018963968))"
proof -
  have "reachable
     \<lparr>users = [], transactions =
        [\<lparr>tx_id = ''a'', type = ''deposit'', amount = round_double (1 / 10), date = 10\<rparr>,
         \<lparr>tx_id = ''b'', type = ''withdrawal'', amount = round_double (1 / 10), date = 20\<rparr>,
         \<lparr>tx_id = ''c'', type = ''deposit'', amount = round_double (2 / 10), date = 30\<rparr>]\<rparr>"
    using reachable.deposit [OF reachable.withdraw [OF reachable.deposit [OF reachable.init,
      of "''a''" 10 "JNumber (round_double (1 / 10))"],
      of "''b''" 20 "JNumber (round_double (1 / 10))"],
      of "''c''" 30 "JNumber (round_double (2 / 10))"]
    by (simp add: post_deposit_number post_withdraw_number empty_store_def
      js_le_def js_eq_def js_gt_def js_ge_def withdraw_balance_def balance_of_def match_type_def
      group_sum_def first_field_def or_zero_def js_sum_def signed_amount_def js_sub_def
      rd_facts round_double_minus round_double_zero round_double_numeral)
  then show ?thesis
    by (simp add: known_kinds_def
      post_deposit_number post_withdraw_number empty_store_def
      js_le_def js_eq_def js_gt_def js_ge_def withdraw_balance_def balance_of_def match_type_def
      group_sum_def first_field_def or_zero_def js_sum_def signed_amount_def js_sub_def
      rd_facts round_double_minus round_double_zero round_double_numeral)
qed

text \<open>
  C6, as the code has it. For transactions of the kinds deposit and withdrawal whose
  amounts are integers with absolute values adding up to less than \<open>2 ^ 53\<close>, the
  balance computed inside \<open>POST /withdraw\<close> equals the balance computed by
  \<open>GET /balance\<close>: both are the sum of the deposits minus the sum of the withdrawals.
\<close>

theorem balances_agree:
  assumes "known_kinds docs" and "exact_amounts docs"
  shows "withdraw_balance docs = balance_of docs \<and> balance_of docs = Fin (spec_balance docs)"
  using assms by (simp add: withdraw_balance_exact balance_of_exact)

text \<open>A deposit of 100 and a withdrawal of 30: both balances are 70.\<close>

theorem balances_agree_witness:
  "known_kinds
     [\<lparr>tx_id = ''a'', type = ''deposit'', amount = Fin 100, date = 10\<rparr>,
     \<lparr>tx_id = ''b'', type = ''withdrawal'', amount = Fin 30, date = 20\<rparr>]
   \<and> exact_amounts
       [\<lparr>tx_id = ''a'', type = ''deposit'', amount = Fin 100, date = 10\<rparr>,
        \<lparr>tx_id = ''b'', type = ''withdrawal'', amount = Fin 30, date = 20\<rparr>]
   \<and> withdraw_balance
       [\<lparr>tx_id = ''a'', type = ''deposit'', amount = Fin 100, date = 10\<rparr>,
        \<lparr>tx_id = ''b'', type = ''withdrawal'', amount = Fin 30, date = 20\<rparr>] = Fin 70
   \<and> balance_of
       [\<lparr>tx_id = ''a'', type = ''deposit'', amount = Fin 100, date = 10\<rparr>,
        \<lparr>tx_id = ''b'', type = ''withdrawal'', amount = Fin 30, date = 20\<rparr>] = Fin 70"
proof -
  have k: "known_kinds
     [\<lparr>tx_id = ''a'', type = ''deposit'', amount = Fin 100, date = 10\<rparr>,
     \<lparr>tx_id = ''b'', type = ''withdrawal'', amount = Fin 30, date = 20\<rparr>]"
    by (simp add: known_kinds_def)
  have e: "exact_amounts
       [\<lparr>tx_id = ''a'', type = ''deposit'', amount = Fin 100, date = 10\<rparr>,
        \<lparr>tx_id = ''b'', type = ''withdrawal'', amount = Fin 30, date = 20\<rparr>]"
    by (simp add: exact_amounts_def integral_def total_magnitude_def magnitude_def
        finite_value_def)
  from balances_agree [OF k e] k e show ?thesis
    by (simp add: spec_balance_def exact_total_def finite_value_def)
qed

text \<open>
  C7. On every store \<open>DELETE /transactions\<close> answers 200 with
  \<open>All transactions cleared.\<close>, whether or not a transaction was there; on the store it
  leaves, \<open>GET /transactions\<close> returns the empty sequence and \<open>GET /balance\<close> the
  balance 0.
\<close>

theorem clear_transactions:
  "fst (delete_transactions s) = Response 200 (Message ''All transactions cleared.'')
   \<and> get_transactions (snd (delete_transactions s)) = Response 200 (TransactionDocs [])
   \<and> get_balance (snd (delete_transactions s)) = Response 200 (Balance (Fin 0))"
  by (simp add: delete_transactions_def get_transactions_def get_balance_def balance_of_Nil)

text \<open>Clearing the empty store.\<close>

theorem clear_transactions_witness:
  "fst (delete_transactions empty_store) = Response 200 (Message ''All transactions cleared.'')
   \<and> get_transactions (snd (delete_transactions empty_store)) = Response 200 (TransactionDocs [])
   \<and> get_balance (snd (delete_transactions empty_store)) = Response 200 (Balance (Fin 0))"
  by (rule clear_transactions [of empty_store])

text \<open>
  Deposit 0.25, withdraw 0.1, deposit 0.05, withdraw 0.2, each answered 200: the
  balance of \<open>GET /balance\<close> is \<open>(0.25 + 0.05) - (0.1 + 0.2)\<close>, which is
  \<open>- 2 ^ - 54\<close>, about \<open>-5.55e-17\<close>.
\<close>

theorem balance_negative:
  "reachable
     \<lparr>users = [], transactions =
        [\<lparr>tx_id = ''a'', type = ''deposit'', amount = round_double (1 / 4), date = 10\<rparr>,
         \<lparr>tx_id = ''b'', type = ''withdrawal'', amount = round_double (1 / 10), date = 20\<rparr>,
         \<lparr>tx_id = ''c'', type = ''deposit'', amount = round_double (1 / 20), date = 30\<rparr>,
         \<lparr>tx_id = ''d'', type = ''withdrawal'', amount = round_double (2 / 10), date = 40\<rparr>]\<rparr>
   \<and> balance_of
       [\<lparr>tx_id = ''a'', type = ''deposit'', amount = round_double (1 / 4), date = 10\<rparr>,
        \<lparr>tx_id = ''b'', type = ''withdrawal'', amount = round_double (1 / 10), date = 20\<rparr>,
        \<lparr>tx_id = ''c'', type = ''deposit'', amount = round_double (1 / 20), date = 30\<rparr>,
        \<lparr>tx_id = ''d'', type = ''withdrawal'', amount = round_double (2 / 10), date = 40\<rparr>] =
     Fin (- (1 / 18014398509481984))
   \<and> \<not> js_ge (Fin (- (1 / 18014398509481984))) (Fin 0)"
  using example_overdraft_reachable
  by (simp add: post_deposit_number post_withdraw_number empty_store_def
      js_le_def js_eq_def js_gt_def js_ge_def withdraw_balance_def balance_of_def match_type_def
      group_sum_def first_field_def or_zero_def js_sum_def signed_amount_def js_sub_def
      rd_facts round_double_minus round_double_zero round_double_numeral)

text \<open>
  C8, as the code has it. In every store reached from the empty one by requests to
  \<open>POST /deposit\<close>, \<open>POST /withdraw\<close> and \<open>DELETE /transactions\<close>, handled one at a
  time, whose persisted amounts are integers with absolute values adding up to less
  than \<open>2 ^ 53\<close>, the balance \<open>GET /balance\<close> computes and the balance
  \<open>POST /withdraw\<close> computes are \<open>\<ge> 0\<close>.
\<close>

theorem reachable_balance_nonnegative:
  assumes "reachable s" and "exact_amounts (transactions s)"
  shows "js_ge (balance_of (transactions s)) (Fin 0)
       \<and> js_ge (withdraw_balance (transactions s)) (Fin 0)"
  using reachable_invariant [OF assms(1)] assms(2)
  by (simp add: balance_of_exact withdraw_balance_exact js_ge_zero_cases)

text \<open>After a deposit of 100 and a withdrawal of 30 both balances are 70.\<close>

theorem reachable_balance_nonnegative_witness:
  "reachable
     \<lparr>users = [], transactions =
        [\<lparr>tx_id = ''a'', type = ''deposit'', amount = Fin 100, date = 10\<rparr>,
         \<lparr>tx_id = ''b'', type = ''withdrawal'', amount = Fin 30, date = 20\<rparr>]\<rparr>
   \<and> exact_amounts
       [\<lparr>tx_id = ''a'', type = ''deposit'', amount = Fin 100, date = 10\<rparr>,
        \<lparr>tx_id = ''b'', type = ''withdrawal'', amount = Fin 30, date = 20\<rparr>]
   \<and> js_ge (balance_of
       [\<lparr>tx_id = ''a'', type = ''deposit'', amount = Fin 100, date = 10\<rparr>,
        \<lparr>tx_id = ''b'', type = ''withdrawal'', amount = Fin 30, date = 20\<rparr>]) (Fin 0)
   \<and> js_ge (withdraw_balance
       [\<lparr>tx_id = ''a'', type = ''deposit'', amount = Fin 100, date = 10\<rparr>,
        \<lparr>tx_id = ''b'', type = ''withdrawal'', amount = Fin 30, date = 20\<rparr>]) (Fin 0)"
proof -
  have r: "reachable
     \<lparr>users = [], transactions =
        [\<lparr>tx_id = ''a'', type = ''deposit'', amount = Fin 100, date = 10\<rparr>,
         \<lparr>tx_id = ''b'', type = ''withdrawal'', amount = Fin 30, date = 20\<rparr>]\<rparr>"
    using reachable.withdraw [OF reachable.deposit [OF reachable.init,
      of "''a''" 10 "JNumber (Fin 100)"], of "''b''" 20 "JNumber (Fin 30)"]
    by (simp add: post_deposit_number post_withdraw_number empty_store_def
      js_le_def js_eq_def js_gt_def js_ge_def withdraw_balance_def balance_of_def match_type_def
      group_sum_def first_field_def or_zero_def js_sum_def signed_amount_def js_sub_def
      rd_facts round_double_minus round_double_zero round_double_numeral)
  have e: "exact_amounts (transactions
     \<lparr>users = [], transactions =
        [\<lparr>tx_id = ''a'', type = ''deposit'', amount = Fin 100, date = 10\<rparr>,
         \<lparr>tx_id = ''b'', type = ''withdrawal'', amount = Fin 30, date = 20\<rparr>]\<rparr>)"
    by (simp add: exact_amounts_def integral_def total_magnitude_def magnitude_def
        finite_value_def)
  from reachable_balance_nonnegative [OF r e] r e show ?thesis
    by simp
qed

text \<open>
  C9. \<open>POST /deposit\<close>, \<open>POST /withdraw\<close> and \<open>DELETE /transactions\<close> leave the users
  as they were; \<open>POST /users\<close>, \<open>PUT /users/:id\<close> and \<open>DELETE /users/:id\<close> leave the
  transactions as they were, and so the answer of \<open>GET /balance\<close>.
\<close>

theorem collections_disjoint:
  "users (snd (post_deposit oid now v s)) = users s
   \<and> users (snd (post_withdraw oid now v s)) = users s
   \<and> users (snd (delete_transactions s)) = users s
   \<and> transactions (snd (post_users c oid v s)) = transactions s
   \<and> transactions (snd (put_user c param_id v s)) = transactions s
   \<and> transactions (snd (delete_user c param_id s)) = transactions s
   \<and> get_balance (snd (post_users c oid v s)) = get_balance s
   \<and> get_balance (snd (put_user c param_id v s)) = get_balance s
   \<and> get_balance (snd (delete_user c param_id s)) = get_balance s"
  by (simp add: post_deposit_users post_withdraw_users delete_transactions_def
      post_users_transactions put_user_transactions delete_user_transactions get_balance_def)

text \<open>Creating the user \<open>Eddie\<close> on a store with a deposit of 100, and depositing there.\<close>

theorem collections_disjoint_witness:
  "users (snd (post_deposit ''b'' 20 (JNumber (Fin 5))
       \<lparr>users = [\<lparr>user_id = ''u'', name = Some ''Eddie''\<rparr>], transactions = []\<rparr>)) =
     [\<lparr>user_id = ''u'', name = Some ''Eddie''\<rparr>]
   \<and> transactions (snd (post_users \<lparr>castObjectId = Some, castString = (\<lambda>v. None)\<rparr> ''u''
       (JString ''Eddie'')
       \<lparr>users = [], transactions =
          [\<lparr>tx_id = ''a'', type = ''deposit'', amount = Fin 100, date = 10\<rparr>]\<rparr>)) =
     [\<lparr>tx_id = ''a'', type = ''deposit'', amount = Fin 100, date = 10\<rparr>]"
  using collections_disjoint [of "''b''" 20 "JNumber (Fin 5)"
      "\<lparr>users = [\<lparr>user_id = ''u'', name = Some ''Eddie''\<rparr>], transactions = []\<rparr>"]
    collections_disjoint [of _ _ "JString ''Eddie''"
      "\<lparr>users = [], transactions =
          [\<lparr>tx_id = ''a'', type = ''deposit'', amount = Fin 100, date = 10\<rparr>]\<rparr>"
      "\<lparr>castObjectId = Some, castString = (\<lambda>v. None)\<rparr>" "''u''"]
  by simp

text \<open>
  C10. \<open>POST /users\<close> with a body that has no \<open>name\<close>: the required-field validation
  rejects the save, no user is created, and the handler ends in an unhandled fault, with
  no 201, 400 or 404 response.
\<close>

theorem post_users_without_name:
  "post_users c oid JUndefined s = (Fault, s)"
  by (simp add: post_users_def User_save_def String_cast_def)

text \<open>The empty body on the empty store.\<close>

theorem post_users_without_name_witness:
  "post_users \<lparr>castObjectId = Some, castString = (\<lambda>v. None)\<rparr> ''u'' JUndefined empty_store
     = (Fault, empty_store)"
  by (rule post_users_without_name)

end
